theory Spec2Isabelle
  imports Main "HOL-Library.Multiset"
begin

section \<open>Strings as the source handles them\<close>

text \<open>
  Texts are ASCII: a buffer and the string that \<open>toString()\<close> decodes it to are
  the same list of characters, and a text with characters outside ASCII is outside
  the model. \<open>trim\<close> is JavaScript's \<open>String.prototype.trim\<close> on the ASCII
  white space and line terminators: TAB, LF, VT, FF, CR and SPACE.
\<close>

definition isWhitespace :: "char \<Rightarrow> bool" where
  "isWhitespace c = (of_char c \<in> {9, 10, 11, 12, 13, 32 :: nat})"

definition trim :: "string \<Rightarrow> string" where
  "trim s = rev (dropWhile isWhitespace (rev (dropWhile isWhitespace s)))"

text \<open>
  The text that \<open>String.prototype.replace\<close> puts in the place of one match, for
  a pattern without groups: in the replacement string, \<open>$$\<close> stands for a dollar
  sign, \<open>$&\<close> for the matched text, a dollar sign with a backquote for the text
  before the match and a dollar sign with an apostrophe for the text after it; any
  other character, a dollar sign included, stands for itself.
\<close>

fun expandReplacement :: "string \<Rightarrow> string \<Rightarrow> string \<Rightarrow> string \<Rightarrow> string" where
  "expandReplacement matched before after [] = []"
| "expandReplacement matched before after [c] = [c]"
| "expandReplacement matched before after (c # d # r) =
     (if c = CHR ''$'' \<and> d = CHR ''$'' then CHR ''$'' # expandReplacement matched before after r
      else if c = CHR ''$'' \<and> d = CHR ''&'' then matched @ expandReplacement matched before after r
      else if c = CHR ''$'' \<and> d = CHR 0x60 then before @ expandReplacement matched before after r
      else if c = CHR ''$'' \<and> d = CHR 0x27 then after @ expandReplacement matched before after r
      else c # expandReplacement matched before after (d # r))"

text \<open>
  \<open>data.replace(/\n/g, '\n' + prefix)\<close>, on the part of \<open>data\<close> that follows
  \<open>before\<close>.
\<close>

fun replaceNewlinesFrom :: "string \<Rightarrow> string \<Rightarrow> string \<Rightarrow> string" where
  "replaceNewlinesFrom prefix before [] = []"
| "replaceNewlinesFrom prefix before (c # cs) =
     (if c = CHR 0x0A
      then expandReplacement [CHR 0x0A] before cs (CHR 0x0A # prefix)
           @ replaceNewlinesFrom prefix (before @ [c]) cs
      else c # replaceNewlinesFrom prefix (before @ [c]) cs)"

definition replaceNewlines :: "string \<Rightarrow> string \<Rightarrow> string" where
  "replaceNewlines prefix s = replaceNewlinesFrom prefix [] s"

text \<open>Truthiness of a value that is \<open>null\<close>/\<open>undefined\<close> or a string.\<close>

definition truthy :: "string option \<Rightarrow> bool" where
  "truthy v = (case v of None \<Rightarrow> False | Some s \<Rightarrow> s \<noteq> [])"

section \<open>Results, options and errors\<close>

datatype error = Error string | TypeError

datatype channel = Stdout | Stderr

type_synonym stream_write = "channel \<times> string"

record result =
  pid :: "nat option"
  stdout :: "string option"
  stderr :: "string option"
  status :: "int option"
  signal :: "string option"
  error :: "error option"

record options =
  optSafe :: bool
  optRead :: bool
  optOutput :: bool
  optOutputPrefix :: "string option"
  optCache :: "bool option"
  optSync :: "bool option"
  optConcurrency :: "nat option"

section \<open>Result finalization\<close>

text \<open>
  \<open>prefixData(data, prefix = '>\t')\<close>. The second argument is \<open>None\<close> when the
  caller leaves it out, which selects the default prefix.
\<close>

definition prefixData :: "string option \<Rightarrow> string option \<Rightarrow> string" where
  "prefixData data prefix =
     (let p = (case prefix of None \<Rightarrow> [CHR ''>'', CHR 0x09] | Some q \<Rightarrow> q);
          d = (case data of None \<Rightarrow> [] | Some s \<Rightarrow> s)
      in if p \<noteq> [] \<and> d \<noteq> []
         then p @ replaceNewlines p (trim d) @ [CHR 0x0A]
         else d)"

text \<open>
  \<open>outputData(data, channel, prefix)\<close>: \<open>data.toString()\<close> throws a TypeError on
  \<open>null\<close>; otherwise the data is written when its trimmed text is non-empty.
\<close>

definition outputData :: "string option \<Rightarrow> channel \<Rightarrow> string option \<Rightarrow> error + stream_write list" where
  "outputData data ch prefix =
     (case data of
        None \<Rightarrow> Inl TypeError
      | Some d \<Rightarrow>
          if trim d \<noteq> []
          then Inr [(ch, if truthy prefix then prefixData (Some d) prefix else d)]
          else Inr [])"

text \<open>
  The message of the error synthesized from a non-zero status. A buffer that is
  present but empty is truthy in the source, unlike an empty string; its
  \<open>prefixData\<close> is empty, so in both cases nothing is added to the message.
\<close>

definition statusMessage :: "result \<Rightarrow> string" where
  "statusMessage r =
     ''Command exited with a non-zero status code.''
     @ (if truthy (stdout r) \<and> prefixData (stdout r) None \<noteq> []
        then [CHR 0x0A] @ ''The command's stdout output:'' @ [CHR 0x0A] @ prefixData (stdout r) None
        else [])
     @ (if truthy (stderr r) \<and> prefixData (stderr r) None \<noteq> []
        then [CHR 0x0A] @ ''The command's stderr output:'' @ [CHR 0x0A] @ prefixData (stderr r) None
        else [])"

text \<open>The part of \<open>updateExecutableResult\<close> after the output block.\<close>

definition classifyResult :: "result \<Rightarrow> result" where
  "classifyResult r =
     (if error r \<noteq> None then r
      else if status r \<noteq> None \<and> status r \<noteq> Some 0
      then r\<lparr>error := Some (Error (statusMessage r))\<rparr>
      else r)"

text \<open>
  \<open>updateExecutableResult(result, opts)\<close>. The first component is what was written
  to the parent's streams; the second is the thrown error or the finalized result.
\<close>

definition updateExecutableResult :: "result \<Rightarrow> options \<Rightarrow> stream_write list \<times> (error + result)" where
  "updateExecutableResult r opts =
     (if optOutput opts then
        (case outputData (stdout r) Stdout (optOutputPrefix opts) of
           Inl e \<Rightarrow> ([], Inl e)
         | Inr w1 \<Rightarrow>
             (case outputData (stderr r) Stderr (optOutputPrefix opts) of
                Inl e \<Rightarrow> (w1, Inl e)
              | Inr w2 \<Rightarrow> (w1 @ w2, Inr (classifyResult r))))
      else ([], Inr (classifyResult r)))"

section \<open>Commands\<close>

text \<open>
  \<open>String.prototype.split\<close> with a one-character separator: \<open>splitAux\<close> returns
  the first token and the tokens after it, so the result is never empty.
\<close>

fun splitAux :: "char \<Rightarrow> string \<Rightarrow> string \<times> string list" where
  "splitAux d [] = ([], [])"
| "splitAux d (c # cs) =
     (let (t, ts) = splitAux d cs
      in if c = d then ([], t # ts) else (c # t, ts))"

definition splitString :: "char \<Rightarrow> string \<Rightarrow> string list" where
  "splitString d s = (let (t, ts) = splitAux d s in t # ts)"

text \<open>\<open>Array.prototype.join\<close> with a one-character separator.\<close>

fun joinStrings :: "char \<Rightarrow> string list \<Rightarrow> string" where
  "joinStrings d [] = []"
| "joinStrings d [t] = t"
| "joinStrings d (t # u # ts) = t @ d # joinStrings d (u # ts)"

datatype command = CommandString string | CommandArray "string list"

text \<open>
  The first step of \<open>spawn\<close> and \<open>spawnSync\<close>:
  \<open>if ( typeChecker.isString(command) ) command = command.split(' ')\<close>.
\<close>

fun normalizeCommand :: "command \<Rightarrow> string list" where
  "normalizeCommand (CommandString s) = splitString (CHR '' '') s"
| "normalizeCommand (CommandArray a) = a"

text \<open>\<open>command[0]\<close>, the executable, and \<open>command.slice(1)\<close>, its arguments.\<close>

definition commandExecutable :: "command \<Rightarrow> string option" where
  "commandExecutable c = (case normalizeCommand c of [] \<Rightarrow> None | x # _ \<Rightarrow> Some x)"

definition commandArguments :: "command \<Rightarrow> string list" where
  "commandArguments c = tl (normalizeCommand c)"

text \<open>
  The specification's wording, "a plain string form splits on whitespace", as a
  function of its own: the tokens are the non-empty maximal runs of characters that
  are not white space.
\<close>

fun specTokens :: "string \<Rightarrow> string \<Rightarrow> string list" where
  "specTokens acc [] = (if acc = [] then [] else [rev acc])"
| "specTokens acc (c # cs) =
     (if isWhitespace c
      then (if acc = [] then specTokens [] cs else rev acc # specTokens [] cs)
      else specTokens (c # acc) cs)"

definition specSplitOnWhitespace :: "string \<Rightarrow> string list" where
  "specSplitOnWhitespace s = specTokens [] s"

section \<open>The executable verifier\<close>

text \<open>
  The error object that \<open>child_process.exec\<close> hands to its callback and that
  \<open>execSync\<close> throws: \<open>err.code\<close> is a number, a string (a system error name)
  or absent; \<open>err.status\<close> is a number or absent.
\<close>

datatype error_code = CodeNumber int | CodeString string | CodeUndefined

record exec_error =
  code :: error_code
  errorStatus :: "int option"
  message :: string

text \<open>
  What becomes of a command line given to the shell of the host: the command ran
  and exited with a status, the shell could not run the command and exited with a
  status of its own (127 when it did not find the command), the child was killed by
  a signal, or the shell itself could not be started, which Node reports as a
  system error with a name and a message. The text with a status or a signal is
  what was written on standard error.
\<close>

datatype probe_outcome =
    Exited int string
  | NotLaunched int string
  | Killed string string
  | ShellFailed string string

text \<open>\<open>(/pattern/).test(s)\<close> for a pattern without metacharacters.\<close>

fun containsString :: "string \<Rightarrow> string \<Rightarrow> bool" where
  "containsString pat [] = (pat = [])"
| "containsString pat (c # cs) = (take (length pat) (c # cs) = pat \<or> containsString pat cs)"

text \<open>\<open>(/EACCESS|Permission denied/).test(err.message)\<close>\<close>

definition permissionPattern :: "string \<Rightarrow> bool" where
  "permissionPattern m = (containsString ''EACCESS'' m \<or> containsString ''Permission denied'' m)"

text \<open>
  \<open>err.code !== 127 && (/EACCESS|Permission denied/).test(err.message) === false\<close>
\<close>

definition probeVerdict :: "exec_error \<Rightarrow> bool" where
  "probeVerdict err = (code err \<noteq> CodeNumber 127 \<and> permissionPattern (message err) = False)"

text \<open>
  The host the module runs on: the process (\<open>process.platform\<close>, \<open>process.cwd()\<close>,
  \<open>process.env\<close>, \<open>process.execPath\<close>), the functions of Node's \<open>path\<close> module
  that the module calls, and the file system and process table as the verifier sees
  them: whether \<open>fs.access\<close> and \<open>fs.accessSync\<close> exist, whether the access check
  of a path for \<open>X_OK\<close> fails, what becomes of a command line given to the shell,
  and the text that Node puts, in the message of the error of a command line that
  failed, before what the child wrote on standard error (\<open>Command failed:\<close>, the
  command and a line feed).
\<close>

record host =
  platform :: string
  cwd :: string
  env :: "string \<Rightarrow> string option"
  execPath :: string
  delimiter :: char
  pathJoin :: "string \<Rightarrow> string \<Rightarrow> string"
  pathResolve :: "string \<Rightarrow> string"
  pathResolve2 :: "string \<Rightarrow> string \<Rightarrow> string"
  hasAccess :: bool
  hasAccessSync :: bool
  accessFails :: "string \<Rightarrow> bool"
  probe :: "string \<Rightarrow> probe_outcome"
  commandFailed :: "string \<Rightarrow> string"

text \<open>
  The error of \<open>child_process.exec\<close> for a command line, \<open>None\<close> when there is
  none. When the child exits with a status other than 0, or is killed, the error
  has the status as its \<open>code\<close> (\<open>null\<close> when killed), and its message ends
  with what the child wrote on standard error. When the shell cannot be started the
  error is the system error.
\<close>

definition execFails :: "host \<Rightarrow> string \<Rightarrow> exec_error option" where
  "execFails h cmd =
     (case probe h cmd of
        Exited n t \<Rightarrow>
          if n = 0 then None
          else Some \<lparr>code = CodeNumber n, errorStatus = None, message = commandFailed h cmd @ t\<rparr>
      | NotLaunched n t \<Rightarrow>
          if n = 0 then None
          else Some \<lparr>code = CodeNumber n, errorStatus = None, message = commandFailed h cmd @ t\<rparr>
      | Killed sg t \<Rightarrow>
          Some \<lparr>code = CodeUndefined, errorStatus = None, message = commandFailed h cmd @ t\<rparr>
      | ShellFailed c m \<Rightarrow>
          Some \<lparr>code = CodeString c, errorStatus = None, message = m\<rparr>)"

text \<open>
  The error that \<open>child_process.execSync\<close> throws for a command line, \<open>None\<close>
  when it returns. Unlike the error of \<open>exec\<close>, the error for an exit status
  other than 0 carries the status as \<open>err.status\<close> and has no \<open>code\<close>.
\<close>

definition execSyncFails :: "host \<Rightarrow> string \<Rightarrow> exec_error option" where
  "execSyncFails h cmd =
     (case probe h cmd of
        Exited n t \<Rightarrow>
          if n = 0 then None
          else Some \<lparr>code = CodeUndefined, errorStatus = Some n,
                     message = commandFailed h cmd @ t\<rparr>
      | NotLaunched n t \<Rightarrow>
          if n = 0 then None
          else Some \<lparr>code = CodeUndefined, errorStatus = Some n,
                     message = commandFailed h cmd @ t\<rparr>
      | Killed sg t \<Rightarrow>
          Some \<lparr>code = CodeUndefined, errorStatus = None, message = commandFailed h cmd @ t\<rparr>
      | ShellFailed c m \<Rightarrow>
          Some \<lparr>code = CodeString c, errorStatus = None, message = m\<rparr>)"

text \<open>
  \<open>isExecutableSync(path, opts, next)\<close>: the value returned, or handed to
  \<open>next\<close>.
\<close>

definition isExecutableSync :: "host \<Rightarrow> string \<Rightarrow> bool" where
  "isExecutableSync h path =
     (if hasAccessSync h then \<not> accessFails h path
      else (case execSyncFails h (path @ '' --version'') of
              None \<Rightarrow> True
            | Some err \<Rightarrow> probeVerdict err))"

text \<open>
  \<open>isExecutable(path, opts, next)\<close>: the value handed to \<open>next\<close>, whose error
  argument is always \<open>null\<close>. The second argument is the truthiness of \<open>opts.sync\<close>.
\<close>

definition isExecutable :: "host \<Rightarrow> bool \<Rightarrow> string \<Rightarrow> bool" where
  "isExecutable h sy path =
     (if sy then isExecutableSync h path
      else if hasAccess h then \<not> accessFails h path
      else (case execFails h (path @ '' --version'') of
              None \<Rightarrow> True
            | Some err \<Rightarrow> probeVerdict err))"

text \<open>
  The specification's wording of the fallback, as a function of what became of the
  probe: "a launch failure with command-not-found semantics (the not-found code)
  means not executable; a launch failure whose message indicates a
  permission/access error also means not executable; any other failure (the process
  runs and exits non-zero) still counts as executable". A message indicates a
  permission error when the pattern of the source matches it.
\<close>

fun specProbeVerdict :: "probe_outcome \<Rightarrow> bool" where
  "specProbeVerdict (NotLaunched n t) = (n \<noteq> 127 \<and> \<not> permissionPattern t)"
| "specProbeVerdict (ShellFailed c m) = (\<not> permissionPattern m)"
| "specProbeVerdict (Exited n t) = True"
| "specProbeVerdict (Killed sg t) = True"

section \<open>Candidate paths\<close>

text \<open>\<open>(process.platform || '').indexOf('win') === 0\<close>\<close>

definition isWindows :: "host \<Rightarrow> bool" where
  "isWindows h = (take 3 (platform h) = ''win'')"

text \<open>\<open>a || b || ... || null\<close> over values that are strings or undefined.\<close>

fun firstTruthy :: "string option list \<Rightarrow> string option" where
  "firstTruthy [] = None"
| "firstTruthy (v # vs) = (if truthy v then v else firstTruthy vs)"

text \<open>
  \<open>process.env.PATH.split(pathUtil.delimiter)\<close>; a TypeError when \<open>PATH\<close> is not
  set.
\<close>

definition getEnvironmentPaths :: "host \<Rightarrow> error + string list" where
  "getEnvironmentPaths h =
     (case env h ''PATH'' of
        None \<Rightarrow> Inl TypeError
      | Some p \<Rightarrow> Inr (splitString (delimiter h) p))"

definition getStandardExecPaths :: "host \<Rightarrow> string \<Rightarrow> error + string list" where
  "getStandardExecPaths h execName =
     (case getEnvironmentPaths h of
        Inl e \<Rightarrow> Inl e
      | Inr ps \<Rightarrow>
          Inr (if execName \<noteq> []
               then map (\<lambda>p. pathJoin h p execName) (cwd h # ps)
               else cwd h # ps))"

definition windowsVariants :: "string \<Rightarrow> string list" where
  "windowsVariants p = [p, p @ ''.exe'', p @ ''.cmd'', p @ ''.bat'']"

definition getPossibleExecPaths :: "host \<Rightarrow> string \<Rightarrow> error + string list" where
  "getPossibleExecPaths h execName =
     (if isWindows h \<and> CHR ''.'' \<notin> set execName
      then (case getStandardExecPaths h execName of
              Inl e \<Rightarrow> Inl e
            | Inr std \<Rightarrow> Inr (concat (map windowsVariants std)))
      else getStandardExecPaths h execName)"

section \<open>The path caches and the resolver\<close>

text \<open>
  The mutable fields of the module object, and \<open>verifierCalls\<close>, the paths handed
  to \<open>isExecutable\<close> so far, oldest first. \<open>execPathCache\<close> is the cache
  object as a lookup: what \<open>execPathCache[name]\<close> gives for a name, stored or
  inherited.
\<close>

record state =
  execPathCache :: "string \<Rightarrow> string option"
  cachedHomePath :: "string option"
  cachedTmpPath :: "string option"
  cachedGitPath :: "string option"
  cachedNodePath :: "string option"
  cachedNpmPath :: "string option"
  verifierCalls :: "string list"

text \<open>
  What a resolver does with its callback: \<open>next(err)\<close> or \<open>next(null, path)\<close>.
  A resolver's outcome is the list of its calls of \<open>next\<close>, in order, and the
  error it threw after them, if any.
\<close>

datatype reply = Failure error | Success "string option"

type_synonym resolution = "(reply list \<times> error option) \<times> state"

text \<open>\<open>if ( opts.cache == null ) opts.cache = true\<close>, then the truthiness of it.\<close>

definition cacheEnabled :: "options \<Rightarrow> bool" where
  "cacheEnabled opts = (case optCache opts of None \<Rightarrow> True | Some b \<Rightarrow> b)"

text \<open>\<open>if ( opts.sync == null ) opts.sync = false\<close>, then the truthiness of it.\<close>

definition syncEnabled :: "options \<Rightarrow> bool" where
  "syncEnabled opts = (case optSync opts of None \<Rightarrow> False | Some b \<Rightarrow> b)"

text \<open>
  One task of \<open>determineExecPath\<close>, on the value of \<open>execPath\<close> so far. The task
  group runs the tasks one after the other, in the order they were added.
\<close>

definition determineTask :: "host \<Rightarrow> options \<Rightarrow> string \<Rightarrow> string option \<times> state
                               \<Rightarrow> string option \<times> state" where
  "determineTask h opts possibleExecPath acc =
     (let (found, st) = acc in
      if truthy found then (found, st)
      else
        (let p = pathResolve h possibleExecPath;
             st' = st\<lparr>verifierCalls := verifierCalls st @ [p]\<rparr>
         in if isExecutable h (syncEnabled opts) p then (Some p, st') else (found, st')))"

text \<open>
  \<open>determineExecPath(possibleExecPaths, opts, next)\<close>: falsy candidates get no
  task; no task completes with an error, so \<open>next\<close> receives a \<open>null\<close> error
  and the final \<open>execPath\<close>.
\<close>

definition determineExecPath :: "host \<Rightarrow> options \<Rightarrow> string list \<Rightarrow> state
                                   \<Rightarrow> (error option \<times> string option) \<times> state" where
  "determineExecPath h opts possibleExecPaths st =
     (let (found, st') =
            foldl (\<lambda>acc c. determineTask h opts c acc) (None, st)
                  (filter (\<lambda>c. c \<noteq> []) possibleExecPaths)
      in ((None, found), st'))"

text \<open>
  \<open>getHomePath(opts, next)\<close> calls \<open>next\<close> once, with a \<open>null\<close> error:
  \<open>homePathValue\<close> is the path it passes, with the state at the time of the call.
\<close>

definition homePathValue :: "host \<Rightarrow> options \<Rightarrow> state \<Rightarrow> string option \<times> state" where
  "homePathValue h opts st =
     (if cacheEnabled opts \<and> truthy (cachedHomePath st)
      then (cachedHomePath st, st)
      else
        (let homePath = firstTruthy [env h ''USERPROFILE'', env h ''HOME''];
             st' = (if cacheEnabled opts then st\<lparr>cachedHomePath := homePath\<rparr> else st)
         in (homePath, st')))"

definition getHomePath :: "host \<Rightarrow> options \<Rightarrow> state \<Rightarrow> resolution" where
  "getHomePath h opts st =
     (let (homePath, st') = homePathValue h opts st
      in (([Success homePath], None), st'))"

text \<open>
  The end of \<open>getTmpPath\<close>, from the check of \<open>tmpPath\<close> on: after \<open>next(err)\<close>
  the function goes on to write the cache and to call \<open>next(null, tmpPath)\<close>.
\<close>

definition finishTmpPath :: "options \<Rightarrow> string option \<Rightarrow> state \<Rightarrow> resolution" where
  "finishTmpPath opts tmpPath st =
     (let failed = (if truthy tmpPath then []
                    else [Failure (Error ''Wan't able to find a temporary path'')]);
          st' = (if cacheEnabled opts then st\<lparr>cachedTmpPath := tmpPath\<rparr> else st)
      in ((failed @ [Success tmpPath], None), st'))"

text \<open>
  \<open>getTmpPath(opts, next)\<close>. The callback given to \<open>getHomePath\<close> runs before
  \<open>getHomePath\<close> returns; in it \<open>pathUtil.resolve(homePath, tmpDirName)\<close> throws
  a TypeError when \<open>homePath\<close> is \<open>null\<close>, and the error leaves \<open>getTmpPath\<close>.
\<close>

definition getTmpPath :: "host \<Rightarrow> options \<Rightarrow> state \<Rightarrow> resolution" where
  "getTmpPath h opts st =
     (if cacheEnabled opts \<and> truthy (cachedTmpPath st)
      then (([Success (cachedTmpPath st)], None), st)
      else
        (let tmpDirName = (if isWindows h then ''temp'' else ''tmp'');
             tmpPath = firstTruthy [env h ''TMPDIR'', env h ''TMP'', env h ''TEMP'']
         in if truthy tmpPath then finishTmpPath opts tmpPath st
            else
              (case homePathValue h opts st of
                 (None, st1) \<Rightarrow> (([], Some TypeError), st1)
               | (Some homePath, st1) \<Rightarrow>
                   (let t = pathResolve2 h homePath tmpDirName;
                        t' = (if t \<noteq> [] then t
                              else if isWindows h
                              then pathResolve2 h
                                     (case firstTruthy [env h ''windir''] of
                                        None \<Rightarrow> ''C:'' @ CHR 0x5C # ''Windows'' | Some w \<Rightarrow> w)
                                     tmpDirName
                              else ''/tmp'')
                    in finishTmpPath opts (Some t') st1))))"

text \<open>
  The end of \<open>getExecPath\<close>, \<open>getGitPath\<close>, \<open>getNodePath\<close> and \<open>getNpmPath\<close>:
  the callback each gives to \<open>determineExecPath\<close>. \<open>store\<close> is the cache write and
  \<open>notFound\<close> the message of the error.
\<close>

definition determined :: "options \<Rightarrow> string \<Rightarrow> (string \<Rightarrow> state \<Rightarrow> state)
                            \<Rightarrow> (error option \<times> string option) \<times> state \<Rightarrow> resolution" where
  "determined opts notFound store r =
     (let ((err, found), st) = r in
      case err of
        Some e \<Rightarrow> (([Failure e], None), st)
      | None \<Rightarrow>
          (case found of
             Some p \<Rightarrow>
               if p \<noteq> []
               then (([Success (Some p)], None), if cacheEnabled opts then store p st else st)
               else (([Failure (Error notFound)], None), st)
           | None \<Rightarrow> (([Failure (Error notFound)], None), st)))"

text \<open>The environment variables that name a binary, when set and non-empty.\<close>

definition envPaths :: "host \<Rightarrow> string list \<Rightarrow> string list" where
  "envPaths h names =
     concat (map (\<lambda>n. case env h n of None \<Rightarrow> [] | Some v \<Rightarrow> if v \<noteq> [] then [v] else [])
                 names)"

text \<open>
  \<open>/node(.exe)?$/\<close> on a string: the length of the match, which is at the end of
  the string; the dot stands for any character but a line terminator.
\<close>

definition nodeBinaryMatch :: "string \<Rightarrow> nat option" where
  "nodeBinaryMatch s =
     (let n = length s; t = drop (n - 8) s
      in if 8 \<le> n \<and> take 4 t = ''node'' \<and> drop 5 t = ''exe''
            \<and> t ! 4 \<noteq> CHR 0x0A \<and> t ! 4 \<noteq> CHR 0x0D
         then Some 8
         else if 4 \<le> n \<and> drop (n - 4) s = ''node'' then Some 4
         else None)"

definition getGitPath :: "host \<Rightarrow> options \<Rightarrow> state \<Rightarrow> resolution" where
  "getGitPath h opts st =
     (if cacheEnabled opts \<and> truthy (cachedGitPath st)
      then (([Success (cachedGitPath st)], None), st)
      else
        (let execName = (if isWindows h then ''git.exe'' else ''git'')
         in case getStandardExecPaths h execName of
              Inl e \<Rightarrow> (([], Some e), st)
            | Inr std \<Rightarrow>
                determined opts ''Could not locate git binary''
                  (\<lambda>p s. s\<lparr>cachedGitPath := Some p\<rparr>)
                  (determineExecPath h opts
                     (envPaths h [''GIT_PATH'', ''GITPATH'']
                      @ std
                      @ (if isWindows h
                         then [''/Program Files (x64)/Git/bin/'' @ execName,
                               ''/Program Files (x86)/Git/bin/'' @ execName,
                               ''/Program Files/Git/bin/'' @ execName]
                         else [''/usr/local/bin/'' @ execName,
                               ''/usr/bin/'' @ execName,
                               ''~/bin/'' @ execName]))
                     st)))"

definition getNodePath :: "host \<Rightarrow> options \<Rightarrow> state \<Rightarrow> resolution" where
  "getNodePath h opts st =
     (if cacheEnabled opts \<and> truthy (cachedNodePath st)
      then (([Success (cachedNodePath st)], None), st)
      else
        (let execName = (if isWindows h then ''node.exe'' else ''node'')
         in case getStandardExecPaths h execName of
              Inl e \<Rightarrow> (([], Some e), st)
            | Inr std \<Rightarrow>
                determined opts ''Could not locate node binary''
                  (\<lambda>p s. s\<lparr>cachedNodePath := Some p\<rparr>)
                  (determineExecPath h opts
                     (envPaths h [''NODE_PATH'', ''NODEPATH'']
                      @ (if nodeBinaryMatch (execPath h) \<noteq> None then [execPath h] else [])
                      @ std
                      @ (if isWindows h
                         then [''/Program Files (x64)/nodejs/'' @ execName,
                               ''/Program Files (x86)/nodejs/'' @ execName,
                               ''/Program Files/nodejs/'' @ execName]
                         else [''/usr/local/bin/'' @ execName,
                               ''/usr/bin/'' @ execName,
                               ''~/bin/'' @ execName]))
                     st)))"

definition getNpmPath :: "host \<Rightarrow> options \<Rightarrow> state \<Rightarrow> resolution" where
  "getNpmPath h opts st =
     (if cacheEnabled opts \<and> truthy (cachedNpmPath st)
      then (([Success (cachedNpmPath st)], None), st)
      else
        (let execName = (if isWindows h then ''npm.cmd'' else ''npm'')
         in case getStandardExecPaths h execName of
              Inl e \<Rightarrow> (([], Some e), st)
            | Inr std \<Rightarrow>
                determined opts ''Could not locate npm binary''
                  (\<lambda>p s. s\<lparr>cachedNpmPath := Some p\<rparr>)
                  (determineExecPath h opts
                     (envPaths h [''NPM_PATH'', ''NPMPATH'']
                      @ (case nodeBinaryMatch (execPath h) of
                           None \<Rightarrow> []
                         | Some k \<Rightarrow> [take (length (execPath h) - k) (execPath h) @ execName])
                      @ std
                      @ (if isWindows h
                         then [''/Program Files (x64)/nodejs/'' @ execName,
                               ''/Program Files (x86)/nodejs/'' @ execName,
                               ''/Program Files/nodejs/'' @ execName]
                         else [''/usr/local/bin/'' @ execName,
                               ''/usr/bin/'' @ execName,
                               ''~/node_modules/.bin/'' @ execName]))
                     st)))"

text \<open>
  \<open>execName.substr(0, 1) === '/' || execName.substr(1, 1) === ':'\<close>
\<close>

definition isAbsolute :: "string \<Rightarrow> bool" where
  "isAbsolute execName = (take 1 execName = ''/'' \<or> take 1 (drop 1 execName) = '':'')"

text \<open>
  \<open>'get' + execName[0].toUpperCase() + execName.substr(1) + 'Path'\<close>, with the
  upper case of the letters a to z; the upper case of any other character is not a
  letter of a method name of the module.
\<close>

definition toUpperCase :: "char \<Rightarrow> char" where
  "toUpperCase c =
     (case map_of (zip ''abcdefghijklmnopqrstuvwxyz'' ''ABCDEFGHIJKLMNOPQRSTUVWXYZ'') c of
        None \<Rightarrow> c
      | Some u \<Rightarrow> u)"

definition getExecMethodName :: "char \<Rightarrow> string \<Rightarrow> string" where
  "getExecMethodName c cs = ''get'' @ toUpperCase c # cs @ ''Path''"

text \<open>
  The generic branch of \<open>getExecPath\<close>, taken when the module has no method of
  the computed name.
\<close>

definition getGenericExecPath :: "host \<Rightarrow> string \<Rightarrow> options \<Rightarrow> state \<Rightarrow> resolution" where
  "getGenericExecPath h execName opts st =
     (if cacheEnabled opts \<and> truthy (execPathCache st execName)
      then (([Success (execPathCache st execName)], None), st)
      else
        (case getPossibleExecPaths h execName of
           Inl e \<Rightarrow> (([], Some e), st)
         | Inr possibleExecPaths \<Rightarrow>
             determined opts (''Could not locate the '' @ execName @ '' executable path'')
               (\<lambda>p s. s\<lparr>execPathCache := (execPathCache s)(execName \<mapsto> p)\<rparr>)
               (determineExecPath h opts possibleExecPaths st)))"

text \<open>
  \<open>getExecPath(execName, opts, next)\<close>. \<open>execName[0]\<close> of the empty string is
  \<open>undefined\<close>, whose \<open>toUpperCase\<close> throws; the method found for the name
  \<open>exec\<close> is \<open>getExecPath\<close> itself, which is then called with the options in
  the place of the name and throws at \<open>execName.substr\<close>.
\<close>

definition getExecPath :: "host \<Rightarrow> string \<Rightarrow> options \<Rightarrow> state \<Rightarrow> resolution" where
  "getExecPath h execName opts st =
     (if isAbsolute execName then (([Success (Some execName)], None), st)
      else
        (case execName of
           [] \<Rightarrow> (([], Some TypeError), st)
         | c # cs \<Rightarrow>
             (let m = getExecMethodName c cs in
              if m = ''getExecPath'' then (([], Some TypeError), st)
              else if m = ''getHomePath'' then getHomePath h opts st
              else if m = ''getTmpPath'' then getTmpPath h opts st
              else if m = ''getGitPath'' then getGitPath h opts st
              else if m = ''getNodePath'' then getNodePath h opts st
              else if m = ''getNpmPath'' then getNpmPath h opts st
              else getGenericExecPath h execName opts st)))"

text \<open>
  A path on which a task of \<open>determineExecPath\<close> ends the search: the verifier
  accepts it and, as the value of \<open>execPath\<close>, it is truthy.
\<close>

abbreviation accepts :: "host \<Rightarrow> options \<Rightarrow> string \<Rightarrow> bool" where
  "accepts h opts p \<equiv> p \<noteq> [] \<and> isExecutable h (syncEnabled opts) p"

section \<open>The asynchronous spawn\<close>

text \<open>
  What the child process of \<open>spawn\<close> emits: a chunk on its standard output or
  standard error, and \<open>close\<close> with the exit status and the signal.
\<close>

datatype child_event =
    StdoutData string
  | StderrData string
  | Close "int option" "string option"

text \<open>
  The variables that the handlers of the spawn task share: \<open>result\<close>, \<open>opts\<close>
  (whose \<open>output\<close> the close handler overwrites) and \<open>exited\<close>; with them, what
  has been written to the parent's streams and the calls of \<open>next\<close>, oldest first.
\<close>

type_synonym spawn_args =
  "error option \<times> string option \<times> string option \<times> int option \<times> string option"

record spawn_state =
  spResult :: result
  spOpts :: options
  spExited :: bool
  spWritten :: "stream_write list"
  spNext :: "spawn_args list"

definition spawnStart :: "options \<Rightarrow> nat \<Rightarrow> spawn_state" where
  "spawnStart opts child =
     \<lparr>spResult = \<lparr>pid = Some child, stdout = None, stderr = None, status = None,
                   signal = None, error = None\<rparr>,
      spOpts = opts, spExited = False, spWritten = [], spNext = []\<rparr>"

text \<open>\<open>Buffer.concat([buffer, data])\<close> when there is a buffer, else \<open>data\<close>.\<close>

definition appendChunk :: "string option \<Rightarrow> string \<Rightarrow> string option" where
  "appendChunk buffer d = (case buffer of None \<Rightarrow> Some d | Some b \<Rightarrow> Some (b @ d))"

text \<open>The mirroring of one chunk by a \<open>data\<close> handler.\<close>

definition mirrorChunk :: "options \<Rightarrow> channel \<Rightarrow> string \<Rightarrow> stream_write list" where
  "mirrorChunk opts ch d =
     (if optOutput opts
      then (case outputData (Some d) ch (optOutputPrefix opts) of Inl e \<Rightarrow> [] | Inr w \<Rightarrow> w)
      else [])"

text \<open>
  The handlers of the spawn task. The \<open>data\<close> handlers exist when \<open>opts.read\<close>
  is set. The \<open>close\<close> handler records status and signal and, unless the task
  group has exited already, sets \<open>opts.output = false\<close>, finalizes the result and
  completes the task, upon which the task group sets \<open>exited\<close> and calls \<open>next\<close>.
\<close>

fun childEvent :: "spawn_state \<Rightarrow> child_event \<Rightarrow> spawn_state" where
  "childEvent s (StdoutData d) =
     (if optRead (spOpts s)
      then s\<lparr>spWritten := spWritten s @ mirrorChunk (spOpts s) Stdout d,
              spResult := (spResult s)\<lparr>stdout := appendChunk (stdout (spResult s)) d\<rparr>\<rparr>
      else s)"
| "childEvent s (StderrData d) =
     (if optRead (spOpts s)
      then s\<lparr>spWritten := spWritten s @ mirrorChunk (spOpts s) Stderr d,
              spResult := (spResult s)\<lparr>stderr := appendChunk (stderr (spResult s)) d\<rparr>\<rparr>
      else s)"
| "childEvent s (Close st sg) =
     (let r = (spResult s)\<lparr>status := st, signal := sg\<rparr> in
      if spExited s then s\<lparr>spResult := r\<rparr>
      else
        (let opts = (spOpts s)\<lparr>optOutput := False\<rparr>
         in case updateExecutableResult r opts of
              (w, Inl e) \<Rightarrow> s\<lparr>spResult := r, spOpts := opts, spWritten := spWritten s @ w\<rparr>
            | (w, Inr r') \<Rightarrow>
                s\<lparr>spResult := r', spOpts := opts, spWritten := spWritten s @ w,
                  spExited := True,
                  spNext := spNext s @ [(error r', stdout r', stderr r', status r', signal r')]\<rparr>))"

definition spawnChild :: "options \<Rightarrow> nat \<Rightarrow> child_event list \<Rightarrow> spawn_state" where
  "spawnChild opts child events = foldl childEvent (spawnStart opts child) events"

section \<open>The batch runners\<close>











section \<open>Example hosts\<close>

text \<open>
  A host without \<open>fs.access\<close> and \<open>fs.accessSync\<close>, on which every command line
  given to the shell has the outcome \<open>out\<close>.
\<close>

definition probeHost :: "probe_outcome \<Rightarrow> host" where
  "probeHost out =
     \<lparr>platform = ''linux'', cwd = ''/'', env = (\<lambda>_. None), execPath = ''/usr/bin/node'',
      delimiter = CHR '':'', pathJoin = (\<lambda>a b. a @ ''/'' @ b), pathResolve = (\<lambda>p. p),
      pathResolve2 = (\<lambda>a b. a @ ''/'' @ b), hasAccess = False, hasAccessSync = False,
      accessFails = (\<lambda>_. True), probe = (\<lambda>_. out),
      commandFailed = (\<lambda>cmd. ''Command failed: '' @ cmd @ [CHR 0x0A])\<rparr>"

text \<open>
  A host with the platform, \<open>PATH\<close> delimiter and environment given, whose
  working directory is \<open>/work\<close> and on which exactly the paths of \<open>xs\<close> pass the
  access check.
\<close>

definition exampleHost :: "string \<Rightarrow> char \<Rightarrow> (string \<Rightarrow> string option) \<Rightarrow> string list \<Rightarrow> host" where
  "exampleHost pf d e xs =
     \<lparr>platform = pf, cwd = ''/work'', env = e, execPath = ''/usr/bin/node'',
      delimiter = d, pathJoin = (\<lambda>a b. a @ ''/'' @ b),
      pathResolve = (\<lambda>p. if take 1 p = ''/'' then p else ''/work/'' @ p),
      pathResolve2 = (\<lambda>a b. a @ ''/'' @ b), hasAccess = True, hasAccessSync = True,
      accessFails = (\<lambda>p. p \<notin> set xs), probe = (\<lambda>_. Exited 0 []),
      commandFailed = (\<lambda>cmd. ''Command failed: '' @ cmd @ [CHR 0x0A])\<rparr>"

text \<open>The options after \<open>prepareExecutableOptions({})\<close>.\<close>

definition defaultOptions :: options where
  "defaultOptions =
     \<lparr>optSafe = True, optRead = True, optOutput = False, optOutputPrefix = None,
      optCache = None, optSync = None, optConcurrency = None\<rparr>"

text \<open>
  The module as loaded. \<open>execPathCache\<close> is \<open>{}\<close>, in which nothing is stored
  but in which a lookup finds what every object inherits from \<open>Object.prototype\<close>;
  such a member is a function or an object, not a path, and the text
  \<open>[inherited]\<close> stands for it.
\<close>

definition objectPrototypeNames :: "string list" where
  "objectPrototypeNames =
     [''constructor'', ''toString'', ''toLocaleString'', ''valueOf'', ''hasOwnProperty'',
      ''isPrototypeOf'', ''propertyIsEnumerable'', ''__defineGetter__'', ''__defineSetter__'',
      ''__lookupGetter__'', ''__lookupSetter__'', ''__proto__'']"

definition initialState :: state where
  "initialState =
     \<lparr>execPathCache = (\<lambda>n. if n \<in> set objectPrototypeNames then Some ''[inherited]'' else None),
      cachedHomePath = None, cachedTmpPath = None,
      cachedGitPath = None, cachedNodePath = None, cachedNpmPath = None,
      verifierCalls = []\<rparr>"


section \<open>Verified properties\<close>

subsection \<open>Result finalization\<close>

lemma classifyResult_error_iff:
  "(error (classifyResult r) \<noteq> None) = (error r \<noteq> None \<or> (\<exists>n. status r = Some n \<and> n \<noteq> 0))"
  by (cases "status r") (auto simp: classifyResult_def)

lemma classifyResult_keeps_error:
  "error r \<noteq> None \<Longrightarrow> classifyResult r = r"
  by (simp add: classifyResult_def)

lemma classifyResult_success:
  "error r = None \<Longrightarrow> status r = Some 0 \<or> status r = None \<Longrightarrow> classifyResult r = r"
  by (auto simp: classifyResult_def)

lemma updateExecutableResult_returns:
  "\<not> (optOutput opts \<and> (stdout r = None \<or> stderr r = None)) \<Longrightarrow>
   snd (updateExecutableResult r opts) = Inr (classifyResult r)"
  by (auto simp: updateExecutableResult_def outputData_def split: option.splits)

lemma updateExecutableResult_throws:
  "optOutput opts \<Longrightarrow> stdout r = None \<or> stderr r = None \<Longrightarrow>
   snd (updateExecutableResult r opts) = Inl TypeError"
  by (auto simp: updateExecutableResult_def outputData_def split: option.splits)

text \<open>
  Claim C1. Finalization (\<open>updateExecutableResult\<close>) returns unless output
  mirroring is on and one of the two buffers is \<open>null\<close>, where \<open>outputData\<close> throws
  before the result is touched. Whenever it returns, the error of the finalized
  result is non-null if and only if an error was already present or the status is
  non-null and non-zero; an error that was already present is returned as it was;
  and with no error present, a status of 0 or a null status (termination by a
  signal) leaves the error null.
\<close>

theorem updateExecutableResult_error_iff:
  "if optOutput opts \<and> (stdout r = None \<or> stderr r = None)
   then snd (updateExecutableResult r opts) = Inl TypeError
   else (\<exists>r'. snd (updateExecutableResult r opts) = Inr r'
          \<and> ((error r' \<noteq> None) = (error r \<noteq> None \<or> (\<exists>n. status r = Some n \<and> n \<noteq> 0)))
          \<and> (error r \<noteq> None \<longrightarrow> r' = r)
          \<and> (error r = None \<and> (status r = Some 0 \<or> status r = None) \<longrightarrow> error r' = None))"
proof (cases "optOutput opts \<and> (stdout r = None \<or> stderr r = None)")
  case True
  then show ?thesis
    using updateExecutableResult_throws [of opts r] by simp
next
  case False
  have ret: "snd (updateExecutableResult r opts) = Inr (classifyResult r)"
    using False by (rule updateExecutableResult_returns)
  have ok: "error r = None \<and> (status r = Some 0 \<or> status r = None)
              \<longrightarrow> error (classifyResult r) = None"
    using classifyResult_success [of r] by auto
  show ?thesis
    using False ret ok classifyResult_error_iff [of r] classifyResult_keeps_error [of r]
    by simp
qed

theorem updateExecutableResult_error_iff_witness:
  "(\<exists>r'. snd (updateExecutableResult
            \<lparr>pid = None, stdout = Some ''out'', stderr = None, status = Some 2,
             signal = None, error = None\<rparr>
            \<lparr>optSafe = True, optRead = True, optOutput = False, optOutputPrefix = None,
             optCache = None, optSync = None, optConcurrency = None\<rparr>) = Inr r'
        \<and> error r' \<noteq> None)
   \<and> (\<exists>r'. snd (updateExecutableResult
            \<lparr>pid = None, stdout = Some ''out'', stderr = Some [], status = None,
             signal = Some ''SIGKILL'', error = None\<rparr>
            \<lparr>optSafe = True, optRead = True, optOutput = True, optOutputPrefix = None,
             optCache = None, optSync = None, optConcurrency = None\<rparr>) = Inr r'
        \<and> error r' = None)"
  using updateExecutableResult_error_iff
          [of "\<lparr>optSafe = True, optRead = True, optOutput = False, optOutputPrefix = None,
                optCache = None, optSync = None, optConcurrency = None\<rparr>"
              "\<lparr>pid = None, stdout = Some ''out'', stderr = None, status = Some 2,
                signal = None, error = None\<rparr>"]
        updateExecutableResult_error_iff
          [of "\<lparr>optSafe = True, optRead = True, optOutput = True, optOutputPrefix = None,
                optCache = None, optSync = None, optConcurrency = None\<rparr>"
              "\<lparr>pid = None, stdout = Some ''out'', stderr = Some [], status = None,
                signal = Some ''SIGKILL'', error = None\<rparr>"]
  by auto

subsection \<open>Normalizing a command string\<close>

lemma splitAux_join:
  "joinStrings d (fst (splitAux d s) # snd (splitAux d s)) = s"
proof (induction s)
  case Nil
  show ?case by simp
next
  case (Cons c cs)
  obtain t ts where ts: "splitAux d cs = (t, ts)" by (cases "splitAux d cs")
  with Cons show ?case
    by (cases ts) auto
qed

lemma splitAux_no_separator:
  "d \<notin> set (fst (splitAux d s)) \<and> (\<forall>t \<in> set (snd (splitAux d s)). d \<notin> set t)"
  by (induction s) (auto simp: Let_def split: prod.splits)

lemma splitAux_length:
  "length (snd (splitAux d s)) = count_list s d"
  by (induction s) (auto simp: Let_def split: prod.splits)

lemma splitAux_first:
  "fst (splitAux d s) = takeWhile (\<lambda>c. c \<noteq> d) s"
  by (induction s) (auto simp: Let_def split: prod.splits)

lemma splitString_unfold:
  "splitString d s = fst (splitAux d s) # snd (splitAux d s)"
  by (simp add: splitString_def split: prod.splits)

text \<open>
  Claim C8, as the specification words it, fails: a command string is not split on
  white space. With a TAB between \<open>ls\<close> and \<open>-l\<close> the source keeps one token,
  TAB included, where a split on white space gives the tokens \<open>ls\<close> and \<open>-l\<close>.
\<close>

theorem normalizeCommand_whitespace_counterexample:
  "normalizeCommand (CommandString [CHR ''l'', CHR ''s'', CHR 0x09, CHR ''-'', CHR ''l''])
     = [[CHR ''l'', CHR ''s'', CHR 0x09, CHR ''-'', CHR ''l'']]
   \<and> specSplitOnWhitespace [CHR ''l'', CHR ''s'', CHR 0x09, CHR ''-'', CHR ''l''] = [''ls'', ''-l'']
   \<and> normalizeCommand (CommandString [CHR ''l'', CHR ''s'', CHR 0x09, CHR ''-'', CHR ''l''])
     \<noteq> specSplitOnWhitespace [CHR ''l'', CHR ''s'', CHR 0x09, CHR ''-'', CHR ''l'']"
  by (simp add: splitString_def specSplitOnWhitespace_def isWhitespace_def)

text \<open>
  Claim C8, amended. A command given as a string is cut at every single space
  character and nowhere else: the argv list is never empty, joining its tokens with
  one space gives the string back, no token contains a space, there is one token
  more than there are spaces (so adjacent spaces give empty tokens), and the
  executable, the first token, is the string up to its first space.
\<close>

theorem normalizeCommand_splits_at_spaces:
  "normalizeCommand (CommandString s) \<noteq> []
   \<and> joinStrings (CHR '' '') (normalizeCommand (CommandString s)) = s
   \<and> (\<forall>t \<in> set (normalizeCommand (CommandString s)). CHR '' '' \<notin> set t)
   \<and> length (normalizeCommand (CommandString s)) = Suc (count_list s (CHR '' ''))
   \<and> commandExecutable (CommandString s) = Some (takeWhile (\<lambda>c. c \<noteq> CHR '' '') s)"
  using splitAux_join [of "CHR '' ''" s] splitAux_no_separator [of "CHR '' ''" s]
        splitAux_length [of "CHR '' ''" s] splitAux_first [of "CHR '' ''" s]
  by (simp add: splitString_unfold commandExecutable_def)

theorem normalizeCommand_splits_at_spaces_witness:
  "normalizeCommand (CommandString ''git  status'') = [''git'', [], ''status'']
   \<and> joinStrings (CHR '' '') (normalizeCommand (CommandString ''git  status'')) = ''git  status''
   \<and> length (normalizeCommand (CommandString ''git  status'')) = 3
   \<and> commandExecutable (CommandString ''git  status'') = Some ''git''"
  using normalizeCommand_splits_at_spaces [of "''git  status''"]
  by (simp add: splitString_def)

subsection \<open>The fallback probe of the verifier\<close>

lemma containsString_iff:
  "containsString pat s = (\<exists>a b. s = a @ pat @ b)"
proof (induction s)
  case Nil
  show ?case by auto
next
  case (Cons c cs)
  show ?case
  proof
    assume "containsString pat (c # cs)"
    then consider "take (length pat) (c # cs) = pat" | "containsString pat cs" by auto
    then show "\<exists>a b. c # cs = a @ pat @ b"
    proof cases
      case 1
      then have "c # cs = [] @ pat @ drop (length pat) (c # cs)"
        by (metis append_Nil append_take_drop_id)
      then show ?thesis by blast
    next
      case 2
      then obtain a b where "cs = a @ pat @ b" using Cons.IH by blast
      then have "c # cs = (c # a) @ pat @ b" by simp
      then show ?thesis by blast
    qed
  next
    assume "\<exists>a b. c # cs = a @ pat @ b"
    then obtain a b where ab: "c # cs = a @ pat @ b" by blast
    show "containsString pat (c # cs)"
    proof (cases a)
      case Nil
      then have "take (length pat) (c # cs) = pat" using ab by simp
      then show ?thesis by simp
    next
      case (Cons x a')
      then have "cs = a' @ pat @ b" using ab by simp
      then have "containsString pat cs" using Cons.IH by blast
      then show ?thesis by simp
    qed
  qed
qed

text \<open>
  Claim C7 holds of the intent the source states ("an error with trying to run it
  (not executable) or an error from running it (executable)") but not of the
  source. On a host without \<open>fs.accessSync\<close>, take a path that the shell does not
  find: the shell exits with status 127 and \<open>execSync\<close> throws an error that
  carries 127 as \<open>err.status\<close> and has no \<open>code\<close>. \<open>isExecutableSync\<close> tests
  \<open>err.code\<close>, so it answers that the path is executable, and so does
  \<open>isExecutable\<close> with \<open>opts.sync\<close>; by the claim the answer is false.
  \<open>isExecutable\<close> without \<open>opts.sync\<close>, whose error has the status as its
  \<open>code\<close>, answers false for the same path.
\<close>

theorem isExecutableSync_not_found_reported_executable:
  "isExecutableSync (probeHost (NotLaunched 127 ''/bin/sh: 1: /opt/missing: not found''))
     ''/opt/missing'' = True
   \<and> isExecutable (probeHost (NotLaunched 127 ''/bin/sh: 1: /opt/missing: not found'')) True
     ''/opt/missing'' = True
   \<and> specProbeVerdict
       (probe (probeHost (NotLaunched 127 ''/bin/sh: 1: /opt/missing: not found''))
          (''/opt/missing'' @ '' --version'')) = False
   \<and> isExecutable (probeHost (NotLaunched 127 ''/bin/sh: 1: /opt/missing: not found'')) False
     ''/opt/missing'' = False"
  by (simp add: isExecutableSync_def isExecutable_def execSyncFails_def execFails_def
                probeHost_def probeVerdict_def permissionPattern_def)

text \<open>
  The test of the source cannot tell a command that ran from one that did not. A
  command that runs and exits with status 127 itself, and a command that runs,
  writes \<open>Permission denied\<close> on standard error and exits with status 1, are both
  reported not executable by \<open>isExecutable\<close>, though they were launched.
\<close>

lemma isExecutable_ran_reported_not_executable:
  "isExecutable (probeHost (Exited 127 [])) False ''/opt/tool'' = False
   \<and> specProbeVerdict (Exited 127 []) = True
   \<and> isExecutable (probeHost (Exited 1 ''tool: config: Permission denied'')) False ''/opt/tool''
     = False
   \<and> specProbeVerdict (Exited 1 ''tool: config: Permission denied'') = True"
  by (simp add: isExecutable_def execFails_def probeHost_def probeVerdict_def
                permissionPattern_def)

text \<open>
  Where the two paths agree with the claim: a probe that ends with status 0 is
  executable, and so is a command that runs and exits with a status other than 0
  and 127 without the pattern on standard error or in its own command line.
\<close>

lemma isExecutable_probe_launched:
  "isExecutable (probeHost (Exited 0 [])) False ''/opt/tool'' = True
   \<and> isExecutableSync (probeHost (Exited 0 [])) ''/opt/tool'' = True
   \<and> isExecutable (probeHost (Exited 2 ''unknown option'')) False ''/opt/tool'' = True
   \<and> isExecutableSync (probeHost (Exited 2 ''unknown option'')) ''/opt/tool'' = True"
  by (simp add: isExecutable_def isExecutableSync_def execFails_def execSyncFails_def
                probeHost_def probeVerdict_def permissionPattern_def)

subsection \<open>Candidate paths\<close>

lemma windowsVariants_nth:
  "i < length std \<Longrightarrow>
   length (concat (map windowsVariants std)) = 4 * length std
   \<and> concat (map windowsVariants std) ! (4 * i) = std ! i
   \<and> concat (map windowsVariants std) ! (4 * i + 1) = std ! i @ ''.exe''
   \<and> concat (map windowsVariants std) ! (4 * i + 2) = std ! i @ ''.cmd''
   \<and> concat (map windowsVariants std) ! (4 * i + 3) = std ! i @ ''.bat''"
proof (induction std arbitrary: i)
  case Nil
  then show ?case by simp
next
  case (Cons s std)
  show ?case
  proof (cases i)
    case 0
    then show ?thesis
    proof (cases std)
      case Nil
      then show ?thesis using 0 by (simp add: windowsVariants_def)
    next
      case (Cons a list)
      then show ?thesis using 0 Cons.IH [of 0] by (simp add: windowsVariants_def)
    qed
  next
    case (Suc j)
    then have j: "j < length std" using Cons.prems by simp
    have shift: "\<And>k. (s # std) ! Suc j = std ! j" by simp
    have idx: "4 * i = 4 + 4 * j" using Suc by simp
    show ?thesis
      using Cons.IH [OF j] Suc
      by (simp add: windowsVariants_def idx nth_append add.commute [of _ 3])
  qed
qed

lemma windowsVariants_length:
  "length (concat (map windowsVariants std)) = 4 * length std"
  by (induction std) (simp_all add: windowsVariants_def)

text \<open>
  Claim C6. With \<open>PATH\<close> set, let \<open>dirs\<close> be the working directory followed by
  the \<open>PATH\<close> entries in their order, and \<open>std\<close> the list that joins each of
  them with the name (for the empty name, \<open>dirs\<close> itself). On Windows, for a name
  without a dot, the candidate list has four entries for each entry of \<open>std\<close>, in
  the order of \<open>std\<close>: the entry itself, then the entry with \<open>.exe\<close>, with
  \<open>.cmd\<close> and with \<open>.bat\<close>, so the four variants of a directory come before
  any variant of the next. For a name with a dot, or off Windows, the candidate list
  is \<open>std\<close>.
\<close>

theorem getPossibleExecPaths_candidates:
  assumes "env h ''PATH'' = Some p"
    and "dirs = cwd h # splitString (delimiter h) p"
    and "std = (if execName = [] then dirs else map (\<lambda>d. pathJoin h d execName) dirs)"
  shows "(isWindows h \<and> CHR ''.'' \<notin> set execName \<longrightarrow>
           (\<exists>c. getPossibleExecPaths h execName = Inr c
               \<and> length c = 4 * length std
               \<and> (\<forall>i < length std.
                     c ! (4 * i) = std ! i
                   \<and> c ! (4 * i + 1) = std ! i @ ''.exe''
                   \<and> c ! (4 * i + 2) = std ! i @ ''.cmd''
                   \<and> c ! (4 * i + 3) = std ! i @ ''.bat'')))
       \<and> (\<not> (isWindows h \<and> CHR ''.'' \<notin> set execName) \<longrightarrow>
           getPossibleExecPaths h execName = Inr std)"
proof -
  have std: "getStandardExecPaths h execName = Inr std"
    using assms by (simp add: getStandardExecPaths_def getEnvironmentPaths_def)
  show ?thesis
  proof (intro conjI impI)
    assume w: "isWindows h \<and> CHR ''.'' \<notin> set execName"
    then have c: "getPossibleExecPaths h execName = Inr (concat (map windowsVariants std))"
      using std by (simp add: getPossibleExecPaths_def)
    show "\<exists>c. getPossibleExecPaths h execName = Inr c
               \<and> length c = 4 * length std
               \<and> (\<forall>i < length std.
                     c ! (4 * i) = std ! i
                   \<and> c ! (4 * i + 1) = std ! i @ ''.exe''
                   \<and> c ! (4 * i + 2) = std ! i @ ''.cmd''
                   \<and> c ! (4 * i + 3) = std ! i @ ''.bat'')"
      using c windowsVariants_length [of std] windowsVariants_nth [of _ std] by simp
  next
    assume "\<not> (isWindows h \<and> CHR ''.'' \<notin> set execName)"
    then show "getPossibleExecPaths h execName = Inr std"
      using std by (auto simp: getPossibleExecPaths_def)
  qed
qed

theorem getPossibleExecPaths_candidates_witness:
  "(\<exists>c. getPossibleExecPaths (exampleHost ''win32'' (CHR '';'') [''PATH'' \<mapsto> ''C:/a;C:/b''] []) ''foo'' = Inr c
        \<and> length c = 12
        \<and> c ! 4 = ''C:/a/foo'' \<and> c ! 5 = ''C:/a/foo.exe''
        \<and> c ! 6 = ''C:/a/foo.cmd'' \<and> c ! 7 = ''C:/a/foo.bat'')
   \<and> getPossibleExecPaths (exampleHost ''win32'' (CHR '';'') [''PATH'' \<mapsto> ''C:/a;C:/b''] []) ''foo.cmd''
     = Inr [''/work/foo.cmd'', ''C:/a/foo.cmd'', ''C:/b/foo.cmd'']
   \<and> getPossibleExecPaths (exampleHost ''linux'' (CHR '':'') [''PATH'' \<mapsto> ''/usr/bin:/bin''] []) ''foo''
     = Inr [''/work/foo'', ''/usr/bin/foo'', ''/bin/foo'']"
proof -
  let ?w = "exampleHost ''win32'' (CHR '';'') [''PATH'' \<mapsto> ''C:/a;C:/b''] []"
  let ?l = "exampleHost ''linux'' (CHR '':'') [''PATH'' \<mapsto> ''/usr/bin:/bin''] []"
  have w: "isWindows ?w" "env ?w ''PATH'' = Some ''C:/a;C:/b''" "cwd ?w = ''/work''"
    "delimiter ?w = CHR '';''" "pathJoin ?w = (\<lambda>a b. a @ ''/'' @ b)"
    by (simp_all add: exampleHost_def isWindows_def)
  have l: "\<not> isWindows ?l" "env ?l ''PATH'' = Some ''/usr/bin:/bin''" "cwd ?l = ''/work''"
    "delimiter ?l = CHR '':''" "pathJoin ?l = (\<lambda>a b. a @ ''/'' @ b)"
    by (simp_all add: exampleHost_def isWindows_def)
  have sw: "splitString (CHR '';'') ''C:/a;C:/b'' = [''C:/a'', ''C:/b'']"
    by (simp add: splitString_def)
  have sl: "splitString (CHR '':'') ''/usr/bin:/bin'' = [''/usr/bin'', ''/bin'']"
    by (simp add: splitString_def)
  obtain c where c: "getPossibleExecPaths ?w ''foo'' = Inr c" "length c = 12"
    "\<forall>i<3. c ! (4 * i) = [''/work/foo'', ''C:/a/foo'', ''C:/b/foo''] ! i
         \<and> c ! (4 * i + 1) = [''/work/foo'', ''C:/a/foo'', ''C:/b/foo''] ! i @ ''.exe''
         \<and> c ! (4 * i + 2) = [''/work/foo'', ''C:/a/foo'', ''C:/b/foo''] ! i @ ''.cmd''
         \<and> c ! (4 * i + 3) = [''/work/foo'', ''C:/a/foo'', ''C:/b/foo''] ! i @ ''.bat''"
    using getPossibleExecPaths_candidates [OF w(2) refl refl, of "''foo''"] w(1)
    by (auto simp: w sw)
  have "c ! 4 = ''C:/a/foo''" "c ! 5 = ''C:/a/foo.exe''" "c ! 6 = ''C:/a/foo.cmd''"
    "c ! 7 = ''C:/a/foo.bat''"
    using c(3) [rule_format, of 1] by simp_all
  then have 1: "\<exists>c. getPossibleExecPaths ?w ''foo'' = Inr c
        \<and> length c = 12
        \<and> c ! 4 = ''C:/a/foo'' \<and> c ! 5 = ''C:/a/foo.exe''
        \<and> c ! 6 = ''C:/a/foo.cmd'' \<and> c ! 7 = ''C:/a/foo.bat''"
    using c(1,2) by blast
  have 2: "getPossibleExecPaths ?w ''foo.cmd'' = Inr [''/work/foo.cmd'', ''C:/a/foo.cmd'', ''C:/b/foo.cmd'']"
    using getPossibleExecPaths_candidates [OF w(2) refl refl, of "''foo.cmd''"]
    by (simp add: w sw)
  have 3: "getPossibleExecPaths ?l ''foo'' = Inr [''/work/foo'', ''/usr/bin/foo'', ''/bin/foo'']"
    using getPossibleExecPaths_candidates [OF l(2) refl refl, of "''foo''"] l(1)
    by (simp add: l sl)
  from 1 2 3 show ?thesis by blast
qed

subsection \<open>Absolute paths\<close>

text \<open>
  Claim C4. For a name that is already an absolute path (it starts with a slash, or
  its second character is a colon), \<open>getExecPath\<close> calls back once with the name
  itself and leaves the state as it was, on every host and in every state: no cache
  decides the result, and no path is handed to the verifier.
\<close>

theorem getExecPath_absolute:
  "isAbsolute execName \<Longrightarrow>
   getExecPath h execName opts st = (([Success (Some execName)], None), st)
   \<and> verifierCalls (snd (getExecPath h execName opts st)) = verifierCalls st"
  by (simp add: getExecPath_def)

theorem getExecPath_absolute_witness:
  "isAbsolute ''/opt/tool'' \<and> isAbsolute ''C:/tool.exe''
   \<and> getExecPath (exampleHost ''linux'' (CHR '':'') (\<lambda>_. None) []) ''/opt/tool'' defaultOptions
        (initialState\<lparr>execPathCache := [''/opt/tool'' \<mapsto> ''/cached'']\<rparr>)
      = (([Success (Some ''/opt/tool'')], None),
         initialState\<lparr>execPathCache := [''/opt/tool'' \<mapsto> ''/cached'']\<rparr>)
   \<and> fst (getExecPath (exampleHost ''win32'' (CHR '';'') (\<lambda>_. None) []) ''C:/tool.exe''
             defaultOptions initialState)
      = ([Success (Some ''C:/tool.exe'')], None)"
proof -
  have a: "isAbsolute ''/opt/tool''" and b: "isAbsolute ''C:/tool.exe''"
    by (simp_all add: isAbsolute_def)
  show ?thesis
    using a b getExecPath_absolute [OF a] getExecPath_absolute [OF b]
    by simp
qed

subsection \<open>Resolving a name\<close>

lemma determine_found_stays:
  "truthy found \<Longrightarrow>
   foldl (\<lambda>acc c. determineTask h opts c acc) (found, st) cs = (found, st)"
  by (induction cs) (simp_all add: determineTask_def)

lemma determineTask_accept:
  "\<not> truthy found \<Longrightarrow> accepts h opts (pathResolve h c) \<Longrightarrow>
   determineTask h opts c (found, st)
     = (Some (pathResolve h c), st\<lparr>verifierCalls := verifierCalls st @ [pathResolve h c]\<rparr>)"
  by (simp add: determineTask_def Let_def)

lemma determineTask_reject:
  "\<not> truthy found \<Longrightarrow> \<not> accepts h opts (pathResolve h c) \<Longrightarrow>
   \<exists>found'. \<not> truthy found' \<and>
     determineTask h opts c (found, st)
       = (found', st\<lparr>verifierCalls := verifierCalls st @ [pathResolve h c]\<rparr>)"
  by (auto simp add: determineTask_def Let_def truthy_def)

lemma determine_loop:
  "\<not> truthy found \<Longrightarrow>
   \<exists>found'.
     foldl (\<lambda>acc c. determineTask h opts c acc) (found, st) cs
       = (found',
          st\<lparr>verifierCalls := verifierCalls st @
               (case find (accepts h opts) (map (pathResolve h) cs) of
                  Some p \<Rightarrow> takeWhile (\<lambda>p. \<not> accepts h opts p) (map (pathResolve h) cs) @ [p]
                | None \<Rightarrow> map (pathResolve h) cs)\<rparr>)
     \<and> (case find (accepts h opts) (map (pathResolve h) cs) of
          Some p \<Rightarrow> found' = Some p
        | None \<Rightarrow> \<not> truthy found')"
proof (induction cs arbitrary: found st)
  case Nil
  then show ?case by simp
next
  case (Cons c cs)
  show ?case
  proof (cases "accepts h opts (pathResolve h c)")
    case True
    then have t: "truthy (Some (pathResolve h c))" by (simp add: truthy_def)
    show ?thesis
      using True determineTask_accept [OF Cons.prems True, of st]
            determine_found_stays [OF t, of h opts _ cs]
      by simp
  next
    case False
    obtain f1 where f1: "\<not> truthy f1"
      "determineTask h opts c (found, st)
         = (f1, st\<lparr>verifierCalls := verifierCalls st @ [pathResolve h c]\<rparr>)"
      using determineTask_reject [OF Cons.prems False, of st] by blast
    show ?thesis
      using False f1(2)
            Cons.IH [OF f1(1), of "st\<lparr>verifierCalls := verifierCalls st @ [pathResolve h c]\<rparr>"]
      by (auto split: option.splits)
  qed
qed

lemma determineExecPath_result:
  "\<exists>found.
     determineExecPath h opts cands st
       = ((None, found),
          st\<lparr>verifierCalls := verifierCalls st @
               (case find (accepts h opts) (map (pathResolve h) (filter (\<lambda>c. c \<noteq> []) cands)) of
                  Some p \<Rightarrow> takeWhile (\<lambda>p. \<not> accepts h opts p)
                              (map (pathResolve h) (filter (\<lambda>c. c \<noteq> []) cands)) @ [p]
                | None \<Rightarrow> map (pathResolve h) (filter (\<lambda>c. c \<noteq> []) cands))\<rparr>)
     \<and> (case find (accepts h opts) (map (pathResolve h) (filter (\<lambda>c. c \<noteq> []) cands)) of
          Some p \<Rightarrow> found = Some p
        | None \<Rightarrow> \<not> truthy found)"
proof -
  have "\<not> truthy None" by (simp add: truthy_def)
  from determine_loop [OF this, of h opts st "filter (\<lambda>c. c \<noteq> []) cands"]
  show ?thesis
    by (auto simp: determineExecPath_def)
qed


lemma determined_determineExecPath:
  "determined opts msg store (determineExecPath h opts cands st) =
     (case find (accepts h opts) (map (pathResolve h) (filter (\<lambda>c. c \<noteq> []) cands)) of
        Some p \<Rightarrow>
          (([Success (Some p)], None),
           (if cacheEnabled opts then store p else id)
             (st\<lparr>verifierCalls := verifierCalls st
                    @ takeWhile (\<lambda>p. \<not> accepts h opts p)
                        (map (pathResolve h) (filter (\<lambda>c. c \<noteq> []) cands)) @ [p]\<rparr>))
      | None \<Rightarrow>
          (([Failure (Error msg)], None),
           st\<lparr>verifierCalls := verifierCalls st
                  @ map (pathResolve h) (filter (\<lambda>c. c \<noteq> []) cands)\<rparr>))"
proof -
  obtain found where f:
    "determineExecPath h opts cands st
       = ((None, found),
          st\<lparr>verifierCalls := verifierCalls st @
               (case find (accepts h opts) (map (pathResolve h) (filter (\<lambda>c. c \<noteq> []) cands)) of
                  Some p \<Rightarrow> takeWhile (\<lambda>p. \<not> accepts h opts p)
                              (map (pathResolve h) (filter (\<lambda>c. c \<noteq> []) cands)) @ [p]
                | None \<Rightarrow> map (pathResolve h) (filter (\<lambda>c. c \<noteq> []) cands))\<rparr>)"
    "case find (accepts h opts) (map (pathResolve h) (filter (\<lambda>c. c \<noteq> []) cands)) of
          Some p \<Rightarrow> found = Some p
        | None \<Rightarrow> \<not> truthy found"
    using determineExecPath_result [of h opts cands st] by blast
  show ?thesis
  proof (cases "find (accepts h opts) (map (pathResolve h) (filter (\<lambda>c. c \<noteq> []) cands))")
    case None
    then have "\<not> truthy found" using f(2) by simp
    then show ?thesis
      using None f(1) by (auto simp: determined_def truthy_def split: option.splits)
  next
    case (Some p)
    then have fp: "found = Some p" using f(2) by simp
    have "p \<noteq> []" using Some by (auto simp: find_Some_iff)
    then show ?thesis
      using Some f(1) fp by (simp add: determined_def)
  qed
qed

text \<open>
  Claim C3. Take a non-empty name that is not an absolute path, for which the module
  has no method of its own, and that is not answered from the cache, on a host where
  the candidate list exists (\<open>PATH\<close> is set). Every non-empty candidate is made
  absolute with \<open>pathUtil.resolve\<close> and handed to the verifier in that form, in
  the order of the list. \<open>getExecPath\<close> calls back once: with the first of these
  paths that the verifier accepts, after verifying the paths up to that one and no
  further; or, when the verifier accepts none, with the error
  \<open>Could not locate the <name> executable path\<close> and no path, after verifying
  them all.
\<close>

theorem getExecPath_first_verified:
  assumes "\<not> isAbsolute execName"
    and "execName = c # cs"
    and "getExecMethodName c cs \<notin> {''getExecPath'', ''getHomePath'', ''getTmpPath'',
                                      ''getGitPath'', ''getNodePath'', ''getNpmPath''}"
    and "\<not> (cacheEnabled opts \<and> truthy (execPathCache st execName))"
    and "getPossibleExecPaths h execName = Inr cands"
    and "tested = map (pathResolve h) (filter (\<lambda>c. c \<noteq> []) cands)"
  shows "case find (\<lambda>p. p \<noteq> [] \<and> isExecutable h (syncEnabled opts) p) tested of
           Some p \<Rightarrow>
             fst (getExecPath h execName opts st) = ([Success (Some p)], None)
             \<and> verifierCalls (snd (getExecPath h execName opts st))
                 = verifierCalls st
                   @ takeWhile (\<lambda>p. \<not> (p \<noteq> [] \<and> isExecutable h (syncEnabled opts) p)) tested
                   @ [p]
         | None \<Rightarrow>
             fst (getExecPath h execName opts st)
               = ([Failure (Error (''Could not locate the '' @ execName @ '' executable path''))],
                  None)
             \<and> verifierCalls (snd (getExecPath h execName opts st)) = verifierCalls st @ tested"
proof -
  have g: "getExecPath h execName opts st = getGenericExecPath h execName opts st"
    using assms(1,2,3) by (simp add: getExecPath_def Let_def)
  have d: "getGenericExecPath h execName opts st =
             determined opts (''Could not locate the '' @ execName @ '' executable path'')
               (\<lambda>p s. s\<lparr>execPathCache := (execPathCache s)(execName \<mapsto> p)\<rparr>)
               (determineExecPath h opts cands st)"
    using assms(4,5) by (auto simp: getGenericExecPath_def)
  show ?thesis
    unfolding g d determined_determineExecPath assms(6)
    by (simp split: option.splits)
qed


theorem getExecPath_first_verified_witness:
  "fst (getExecPath (exampleHost ''linux'' (CHR '':'') [''PATH'' \<mapsto> ''/usr/bin:/bin:rel'']
                      [''/bin/ls'', ''/work/rel/ls''])
          ''ls'' defaultOptions initialState)
     = ([Success (Some ''/bin/ls'')], None)
   \<and> verifierCalls (snd (getExecPath (exampleHost ''linux'' (CHR '':'') [''PATH'' \<mapsto> ''/usr/bin:/bin:rel'']
                                      [''/bin/ls'', ''/work/rel/ls''])
                           ''ls'' defaultOptions initialState))
     = [''/work/ls'', ''/usr/bin/ls'', ''/bin/ls'']
   \<and> fst (getExecPath (exampleHost ''linux'' (CHR '':'') [''PATH'' \<mapsto> ''/usr/bin:/bin:rel'']
                      [''/bin/ls'', ''/work/rel/ls''])
          ''nope'' defaultOptions initialState)
     = ([Failure (Error ''Could not locate the nope executable path'')], None)"
proof -
  let ?h = "exampleHost ''linux'' (CHR '':'') [''PATH'' \<mapsto> ''/usr/bin:/bin:rel'']
              [''/bin/ls'', ''/work/rel/ls'']"
  have na: "\<not> isAbsolute ''ls''" "\<not> isAbsolute ''nope''"
    by (simp_all add: isAbsolute_def)
  have nm: "getExecMethodName (CHR ''l'') ''s'' \<notin> {''getExecPath'', ''getHomePath'', ''getTmpPath'',
                                      ''getGitPath'', ''getNodePath'', ''getNpmPath''}"
    "getExecMethodName (CHR ''n'') ''ope'' \<notin> {''getExecPath'', ''getHomePath'', ''getTmpPath'',
                                      ''getGitPath'', ''getNodePath'', ''getNpmPath''}"
    by (simp_all add: getExecMethodName_def toUpperCase_def)
  have nc: "\<not> (cacheEnabled defaultOptions \<and> truthy (execPathCache initialState ''ls''))"
    "\<not> (cacheEnabled defaultOptions \<and> truthy (execPathCache initialState ''nope''))"
    by (simp_all add: initialState_def objectPrototypeNames_def truthy_def)
  have sp: "splitString (CHR '':'') ''/usr/bin:/bin:rel'' = [''/usr/bin'', ''/bin'', ''rel'']"
    by (simp add: splitString_def)
  have c1: "getPossibleExecPaths ?h ''ls'' = Inr [''/work/ls'', ''/usr/bin/ls'', ''/bin/ls'', ''rel/ls'']"
    by (simp add: getPossibleExecPaths_def getStandardExecPaths_def getEnvironmentPaths_def
                  isWindows_def exampleHost_def sp)
  have c2: "getPossibleExecPaths ?h ''nope''
              = Inr [''/work/nope'', ''/usr/bin/nope'', ''/bin/nope'', ''rel/nope'']"
    by (simp add: getPossibleExecPaths_def getStandardExecPaths_def getEnvironmentPaths_def
                  isWindows_def exampleHost_def sp)
  have ex: "\<And>p. isExecutable ?h (syncEnabled defaultOptions) p = (p \<in> {''/bin/ls'', ''/work/rel/ls''})"
    by (simp add: isExecutable_def syncEnabled_def defaultOptions_def exampleHost_def)
  have rs: "\<And>p. pathResolve ?h p = (if take 1 p = ''/'' then p else ''/work/'' @ p)"
    by (simp add: exampleHost_def)
  have vc: "verifierCalls initialState = []" by (simp add: initialState_def)
  show ?thesis
    using getExecPath_first_verified [OF na(1) refl nm(1) nc(1) c1 refl]
          getExecPath_first_verified [OF na(2) refl nm(2) nc(2) c2 refl]
    by (simp add: ex rs vc)
qed

subsection \<open>The path caches\<close>

lemma firstTruthy_truthy:
  "firstTruthy vs = Some p \<Longrightarrow> p \<noteq> []"
  by (induction vs) (auto simp: truthy_def split: if_splits)

lemma truthy_Some [simp]: "truthy (Some p) = (p \<noteq> [])"
  by (simp add: truthy_def)

lemma truthy_None [simp]: "\<not> truthy None"
  by (simp add: truthy_def)

lemma getHomePath_again:
  assumes "cacheEnabled opts"
    and "getHomePath h opts st = (([Success (Some p)], None), st1)"
  shows "getHomePath h opts st1 = (([Success (Some p)], None), st1)"
proof (cases "truthy (cachedHomePath st)")
  case True
  then show ?thesis
    using assms by (auto simp: getHomePath_def homePathValue_def)
next
  case False
  then have v: "firstTruthy [env h ''USERPROFILE'', env h ''HOME''] = Some p"
    and s: "st1 = st\<lparr>cachedHomePath := Some p\<rparr>"
    using assms by (auto simp: getHomePath_def homePathValue_def Let_def)
  have "p \<noteq> []" using v by (rule firstTruthy_truthy)
  then show ?thesis
    using assms(1) s by (simp add: getHomePath_def homePathValue_def)
qed

lemma finishTmpPath_success:
  assumes "cacheEnabled opts"
    and "finishTmpPath opts t st = (([Success (Some p)], None), st1)"
  shows "t = Some p \<and> p \<noteq> [] \<and> st1 = st\<lparr>cachedTmpPath := Some p\<rparr>"
  using assms by (auto simp: finishTmpPath_def Let_def split: if_splits)

lemma getTmpPath_again:
  assumes "cacheEnabled opts"
    and "getTmpPath h opts st = (([Success (Some p)], None), st1)"
  shows "getTmpPath h opts st1 = (([Success (Some p)], None), st1)"
proof (cases "truthy (cachedTmpPath st)")
  case True
  then show ?thesis
    using assms by (auto simp: getTmpPath_def)
next
  case False
  have "\<exists>t s. finishTmpPath opts t s = (([Success (Some p)], None), st1)"
    using False assms(2)
    by (auto simp: getTmpPath_def Let_def split: if_splits prod.splits option.splits)
  then obtain t s where "finishTmpPath opts t s = (([Success (Some p)], None), st1)"
    by blast
  then have "p \<noteq> []" "st1 = s\<lparr>cachedTmpPath := Some p\<rparr>"
    using finishTmpPath_success [OF assms(1)] by blast+
  then show ?thesis
    using assms(1) by (simp add: getTmpPath_def)
qed


lemma determined_state:
  assumes "determined opts msg store (determineExecPath h opts cands st) = (r, st1)"
  shows "(\<exists>vc. st1 = st\<lparr>verifierCalls := vc\<rparr> \<and> (\<forall>p. r \<noteq> ([Success (Some p)], None) \<or> \<not> cacheEnabled opts))
       \<or> (\<exists>vc p. st1 = store p (st\<lparr>verifierCalls := vc\<rparr>) \<and> r = ([Success (Some p)], None)
              \<and> cacheEnabled opts \<and> accepts h opts p \<and> p \<in> set vc)"
proof (cases "find (accepts h opts) (map (pathResolve h) (filter (\<lambda>c. c \<noteq> []) cands))")
  case None
  then show ?thesis
    using assms unfolding determined_determineExecPath by auto
next
  case (Some p)
  then have acc: "accepts h opts p" by (auto simp: find_Some_iff)
  let ?vc = "verifierCalls st
               @ takeWhile (\<lambda>p. \<not> accepts h opts p)
                   (map (pathResolve h) (filter (\<lambda>c. c \<noteq> []) cands)) @ [p]"
  have mem: "p \<in> set ?vc" by simp
  show ?thesis
  proof (cases "cacheEnabled opts")
    case True
    then have "st1 = store p (st\<lparr>verifierCalls := ?vc\<rparr>) \<and> r = ([Success (Some p)], None)"
      using assms Some unfolding determined_determineExecPath by auto
    then show ?thesis using True acc mem by blast
  next
    case False
    then have "st1 = st\<lparr>verifierCalls := ?vc\<rparr>"
      using assms Some unfolding determined_determineExecPath by auto
    then show ?thesis using False by blast
  qed
qed

lemma determined_success:
  assumes "cacheEnabled opts"
    and "determined opts msg store (determineExecPath h opts cands st) = (([Success (Some p)], None), st1)"
  shows "p \<noteq> [] \<and> (\<exists>s. st1 = store p s)"
  using determined_state [OF assms(2)] assms(1) by auto

lemma getGitPath_again:
  assumes "cacheEnabled opts"
    and "getGitPath h opts st = (([Success (Some p)], None), st1)"
  shows "getGitPath h opts st1 = (([Success (Some p)], None), st1)"
proof (cases "truthy (cachedGitPath st)")
  case True
  then show ?thesis
    using assms by (auto simp: getGitPath_def)
next
  case False
  then have "\<exists>cands. determined opts ''Could not locate git binary''
                (\<lambda>p s. s\<lparr>cachedGitPath := Some p\<rparr>) (determineExecPath h opts cands st)
              = (([Success (Some p)], None), st1)"
    using assms(2) by (auto simp: getGitPath_def Let_def split: sum.splits)
  then have "p \<noteq> [] \<and> (\<exists>s. st1 = s\<lparr>cachedGitPath := Some p\<rparr>)"
    using determined_success [OF assms(1)] by blast
  then show ?thesis
    using assms(1) by (auto simp: getGitPath_def)
qed

lemma getNodePath_again:
  assumes "cacheEnabled opts"
    and "getNodePath h opts st = (([Success (Some p)], None), st1)"
  shows "getNodePath h opts st1 = (([Success (Some p)], None), st1)"
proof (cases "truthy (cachedNodePath st)")
  case True
  then show ?thesis
    using assms by (auto simp: getNodePath_def)
next
  case False
  then have "\<exists>cands. determined opts ''Could not locate node binary''
                (\<lambda>p s. s\<lparr>cachedNodePath := Some p\<rparr>) (determineExecPath h opts cands st)
              = (([Success (Some p)], None), st1)"
    using assms(2) by (auto simp: getNodePath_def Let_def split: sum.splits)
  then have "p \<noteq> [] \<and> (\<exists>s. st1 = s\<lparr>cachedNodePath := Some p\<rparr>)"
    using determined_success [OF assms(1)] by blast
  then show ?thesis
    using assms(1) by (auto simp: getNodePath_def)
qed

lemma getNpmPath_again:
  assumes "cacheEnabled opts"
    and "getNpmPath h opts st = (([Success (Some p)], None), st1)"
  shows "getNpmPath h opts st1 = (([Success (Some p)], None), st1)"
proof (cases "truthy (cachedNpmPath st)")
  case True
  then show ?thesis
    using assms by (auto simp: getNpmPath_def)
next
  case False
  then have "\<exists>cands. determined opts ''Could not locate npm binary''
                (\<lambda>p s. s\<lparr>cachedNpmPath := Some p\<rparr>) (determineExecPath h opts cands st)
              = (([Success (Some p)], None), st1)"
    using assms(2) by (auto simp: getNpmPath_def Let_def split: sum.splits)
  then have "p \<noteq> [] \<and> (\<exists>s. st1 = s\<lparr>cachedNpmPath := Some p\<rparr>)"
    using determined_success [OF assms(1)] by blast
  then show ?thesis
    using assms(1) by (auto simp: getNpmPath_def)
qed

lemma getGenericExecPath_again:
  assumes "cacheEnabled opts"
    and "getGenericExecPath h n opts st = (([Success (Some p)], None), st1)"
  shows "getGenericExecPath h n opts st1 = (([Success (Some p)], None), st1)"
proof (cases "truthy (execPathCache st n)")
  case True
  then show ?thesis
    using assms by (auto simp: getGenericExecPath_def)
next
  case False
  then have "\<exists>cands. determined opts (''Could not locate the '' @ n @ '' executable path'')
                (\<lambda>p s. s\<lparr>execPathCache := (execPathCache s)(n \<mapsto> p)\<rparr>)
                (determineExecPath h opts cands st)
              = (([Success (Some p)], None), st1)"
    using assms(2) by (auto simp: getGenericExecPath_def Let_def split: sum.splits)
  then have "p \<noteq> [] \<and> (\<exists>s. st1 = s\<lparr>execPathCache := (execPathCache s)(n \<mapsto> p)\<rparr>)"
    using determined_success [OF assms(1)] by blast
  then show ?thesis
    using assms(1) by (auto simp: getGenericExecPath_def)
qed

text \<open>
  Claim C5. With caching enabled, when \<open>getExecPath\<close> has called back with a
  path and no error, resolving the same name again with the same options, in the
  state the first resolution left, calls back with the same path and leaves the
  state as it is: the list of verifier calls does not grow, so every verifier call
  belongs to the first resolution. This holds for every name, absolute, generic or
  with a resolver of its own.
\<close>

theorem getExecPath_cached_again:
  assumes "cacheEnabled opts"
    and "getExecPath h execName opts st = (([Success (Some p)], None), st1)"
  shows "getExecPath h execName opts st1 = (([Success (Some p)], None), st1)
         \<and> verifierCalls (snd (getExecPath h execName opts st1)) = verifierCalls st1"
proof -
  have "getExecPath h execName opts st1 = (([Success (Some p)], None), st1)"
  proof (cases "isAbsolute execName")
    case True
    then show ?thesis using assms(2) by (simp add: getExecPath_def)
  next
    case False
    show ?thesis
    proof (cases execName)
      case Nil
      then show ?thesis using False assms(2) by (simp add: getExecPath_def)
    next
      case (Cons c cs)
      show ?thesis
        using False Cons assms(2)
              getHomePath_again [OF assms(1), of h st p st1]
              getTmpPath_again [OF assms(1), of h st p st1]
              getGitPath_again [OF assms(1), of h st p st1]
              getNodePath_again [OF assms(1), of h st p st1]
              getNpmPath_again [OF assms(1), of h st p st1]
              getGenericExecPath_again [OF assms(1), of h execName st p st1]
        by (simp add: getExecPath_def Let_def split: if_splits)
    qed
  qed
  then show ?thesis by simp
qed


lemma getGitPath_state:
  assumes "getGitPath h opts st = (r, st1)"
  shows "(\<exists>vc. st1 = st\<lparr>verifierCalls := vc\<rparr>)
       \<or> (\<exists>vc p. st1 = st\<lparr>verifierCalls := vc, cachedGitPath := Some p\<rparr>
              \<and> accepts h opts p \<and> p \<in> set vc)"
proof (cases "cacheEnabled opts \<and> truthy (cachedGitPath st)")
  case True
  then have "st1 = st" using assms by (auto simp: getGitPath_def)
  then have "st1 = st\<lparr>verifierCalls := verifierCalls st\<rparr>" by simp
  then show ?thesis by blast
next
  case False
  show ?thesis
  proof (cases "getStandardExecPaths h (if isWindows h then ''git.exe'' else ''git'')")
    case (Inl e)
    then have "st1 = st" using False assms by (auto simp: getGitPath_def Let_def)
    then have "st1 = st\<lparr>verifierCalls := verifierCalls st\<rparr>" by simp
    then show ?thesis by blast
  next
    case (Inr std)
    then have "\<exists>cands. determined opts ''Could not locate git binary''
                (\<lambda>p s. s\<lparr>cachedGitPath := Some p\<rparr>) (determineExecPath h opts cands st)
              = (r, st1)"
      using False assms by (auto simp: getGitPath_def Let_def)
    then obtain cands where d: "determined opts ''Could not locate git binary''
                (\<lambda>p s. s\<lparr>cachedGitPath := Some p\<rparr>) (determineExecPath h opts cands st)
              = (r, st1)"
      by blast
    from determined_state [OF d] show ?thesis by blast
  qed
qed

lemma getNodePath_state:
  assumes "getNodePath h opts st = (r, st1)"
  shows "(\<exists>vc. st1 = st\<lparr>verifierCalls := vc\<rparr>)
       \<or> (\<exists>vc p. st1 = st\<lparr>verifierCalls := vc, cachedNodePath := Some p\<rparr>
              \<and> accepts h opts p \<and> p \<in> set vc)"
proof (cases "cacheEnabled opts \<and> truthy (cachedNodePath st)")
  case True
  then have "st1 = st" using assms by (auto simp: getNodePath_def)
  then have "st1 = st\<lparr>verifierCalls := verifierCalls st\<rparr>" by simp
  then show ?thesis by blast
next
  case False
  show ?thesis
  proof (cases "getStandardExecPaths h (if isWindows h then ''node.exe'' else ''node'')")
    case (Inl e)
    then have "st1 = st" using False assms by (auto simp: getNodePath_def Let_def)
    then have "st1 = st\<lparr>verifierCalls := verifierCalls st\<rparr>" by simp
    then show ?thesis by blast
  next
    case (Inr std)
    then have "\<exists>cands. determined opts ''Could not locate node binary''
                (\<lambda>p s. s\<lparr>cachedNodePath := Some p\<rparr>) (determineExecPath h opts cands st)
              = (r, st1)"
      using False assms by (auto simp: getNodePath_def Let_def)
    then obtain cands where d: "determined opts ''Could not locate node binary''
                (\<lambda>p s. s\<lparr>cachedNodePath := Some p\<rparr>) (determineExecPath h opts cands st)
              = (r, st1)"
      by blast
    from determined_state [OF d] show ?thesis by blast
  qed
qed

lemma getNpmPath_state:
  assumes "getNpmPath h opts st = (r, st1)"
  shows "(\<exists>vc. st1 = st\<lparr>verifierCalls := vc\<rparr>)
       \<or> (\<exists>vc p. st1 = st\<lparr>verifierCalls := vc, cachedNpmPath := Some p\<rparr>
              \<and> accepts h opts p \<and> p \<in> set vc)"
proof (cases "cacheEnabled opts \<and> truthy (cachedNpmPath st)")
  case True
  then have "st1 = st" using assms by (auto simp: getNpmPath_def)
  then have "st1 = st\<lparr>verifierCalls := verifierCalls st\<rparr>" by simp
  then show ?thesis by blast
next
  case False
  show ?thesis
  proof (cases "getStandardExecPaths h (if isWindows h then ''npm.cmd'' else ''npm'')")
    case (Inl e)
    then have "st1 = st" using False assms by (auto simp: getNpmPath_def Let_def)
    then have "st1 = st\<lparr>verifierCalls := verifierCalls st\<rparr>" by simp
    then show ?thesis by blast
  next
    case (Inr std)
    then have "\<exists>cands. determined opts ''Could not locate npm binary''
                (\<lambda>p s. s\<lparr>cachedNpmPath := Some p\<rparr>) (determineExecPath h opts cands st)
              = (r, st1)"
      using False assms by (auto simp: getNpmPath_def Let_def)
    then obtain cands where d: "determined opts ''Could not locate npm binary''
                (\<lambda>p s. s\<lparr>cachedNpmPath := Some p\<rparr>) (determineExecPath h opts cands st)
              = (r, st1)"
      by blast
    from determined_state [OF d] show ?thesis by blast
  qed
qed

lemma getGenericExecPath_state:
  assumes "getGenericExecPath h n opts st = (r, st1)"
  shows "(\<exists>vc. st1 = st\<lparr>verifierCalls := vc\<rparr>)
       \<or> (\<exists>vc p. st1 = st\<lparr>verifierCalls := vc, execPathCache := (execPathCache st)(n \<mapsto> p)\<rparr>
              \<and> accepts h opts p \<and> p \<in> set vc)"
proof (cases "cacheEnabled opts \<and> truthy (execPathCache st n)")
  case True
  then have "st1 = st" using assms by (auto simp: getGenericExecPath_def)
  then have "st1 = st\<lparr>verifierCalls := verifierCalls st\<rparr>" by simp
  then show ?thesis by blast
next
  case False
  show ?thesis
  proof (cases "getPossibleExecPaths h n")
    case (Inl e)
    then have "st1 = st" using False assms by (auto simp: getGenericExecPath_def Let_def)
    then have "st1 = st\<lparr>verifierCalls := verifierCalls st\<rparr>" by simp
    then show ?thesis by blast
  next
    case (Inr cands)
    then have "determined opts (''Could not locate the '' @ n @ '' executable path'')
                (\<lambda>p s. s\<lparr>execPathCache := (execPathCache s)(n \<mapsto> p)\<rparr>)
                (determineExecPath h opts cands st)
              = (r, st1)"
      using False assms by (auto simp: getGenericExecPath_def Let_def)
    then obtain cands where d: "determined opts (''Could not locate the '' @ n @ '' executable path'')
                (\<lambda>p s. s\<lparr>execPathCache := (execPathCache s)(n \<mapsto> p)\<rparr>)
                (determineExecPath h opts cands st)
              = (r, st1)"
      by blast
    from determined_state [OF d] show ?thesis by simp blast
  qed
qed

lemma homePathValue_state:
  "homePathValue h opts st = (v, st1) \<Longrightarrow> st1 = st \<or> st1 = st\<lparr>cachedHomePath := v\<rparr>"
  by (auto simp: homePathValue_def Let_def split: if_splits)

lemma getHomePath_state:
  "getHomePath h opts st = (r, st1) \<Longrightarrow> \<exists>v. st1 = st\<lparr>cachedHomePath := v\<rparr>"
proof -
  assume a: "getHomePath h opts st = (r, st1)"
  obtain v s where v: "homePathValue h opts st = (v, s)" by (cases "homePathValue h opts st")
  then have "st1 = s" using a by (simp add: getHomePath_def)
  then have "st1 = st \<or> st1 = st\<lparr>cachedHomePath := v\<rparr>"
    using homePathValue_state [OF v] by simp
  moreover have "st = st\<lparr>cachedHomePath := cachedHomePath st\<rparr>" by simp
  ultimately show ?thesis by metis
qed

lemma finishTmpPath_state:
  "finishTmpPath opts t st = (r, st1) \<Longrightarrow> \<exists>v. st1 = st\<lparr>cachedTmpPath := v\<rparr>"
proof -
  assume "finishTmpPath opts t st = (r, st1)"
  then have "st1 = st\<lparr>cachedTmpPath := t\<rparr> \<or> st1 = st\<lparr>cachedTmpPath := cachedTmpPath st\<rparr>"
    by (auto simp: finishTmpPath_def Let_def split: if_splits)
  then show ?thesis by blast
qed

lemma getTmpPath_state:
  assumes "getTmpPath h opts st = (r, st1)"
  shows "\<exists>v t. st1 = st\<lparr>cachedHomePath := v, cachedTmpPath := t\<rparr>"
proof -
  have same: "st = st\<lparr>cachedHomePath := cachedHomePath st, cachedTmpPath := cachedTmpPath st\<rparr>"
    by simp
  show ?thesis
  proof (cases "cacheEnabled opts \<and> truthy (cachedTmpPath st)")
    case True
    then have "st1 = st" using assms by (auto simp: getTmpPath_def)
    then show ?thesis using same by metis
  next
    case False
    show ?thesis
    proof (cases "truthy (firstTruthy [env h ''TMPDIR'', env h ''TMP'', env h ''TEMP''])")
      case True
      then have "\<exists>t. finishTmpPath opts t st = (r, st1)"
        using False assms by (auto simp: getTmpPath_def Let_def)
      then obtain v where "st1 = st\<lparr>cachedTmpPath := v\<rparr>"
        using finishTmpPath_state by blast
      then have "st1 = st\<lparr>cachedHomePath := cachedHomePath st, cachedTmpPath := v\<rparr>" by simp
      then show ?thesis by blast
    next
      case F2: False
      obtain v s where v: "homePathValue h opts st = (v, s)" by (cases "homePathValue h opts st")
      then have s: "s = st\<lparr>cachedHomePath := cachedHomePath s\<rparr>"
        using homePathValue_state [OF v] by auto
      have "st1 = s \<or> (\<exists>t. finishTmpPath opts t s = (r, st1))"
        using False F2 assms v
        by (auto simp: getTmpPath_def Let_def split: option.splits)
      then have "\<exists>t. st1 = s\<lparr>cachedTmpPath := t\<rparr>"
      proof
        assume "st1 = s"
        then have "st1 = s\<lparr>cachedTmpPath := cachedTmpPath s\<rparr>" by simp
        then show ?thesis by blast
      next
        assume "\<exists>t. finishTmpPath opts t s = (r, st1)"
        then show ?thesis using finishTmpPath_state by blast
      qed
      then obtain t where "st1 = s\<lparr>cachedTmpPath := t\<rparr>" by blast
      then have "st1 = st\<lparr>cachedHomePath := cachedHomePath s, cachedTmpPath := t\<rparr>"
        using s by metis
      then show ?thesis by blast
    qed
  qed
qed


lemma getExecPath_state:
  assumes "getExecPath h execName opts st = (r, st1)"
  shows "(\<exists>vc. st1 = st\<lparr>verifierCalls := vc\<rparr>)
       \<or> (\<exists>vc p. st1 = st\<lparr>verifierCalls := vc, execPathCache := (execPathCache st)(execName \<mapsto> p)\<rparr>
              \<and> accepts h opts p \<and> p \<in> set vc)
       \<or> (\<exists>vc p. st1 = st\<lparr>verifierCalls := vc, cachedGitPath := Some p\<rparr>
              \<and> accepts h opts p \<and> p \<in> set vc)
       \<or> (\<exists>vc p. st1 = st\<lparr>verifierCalls := vc, cachedNodePath := Some p\<rparr>
              \<and> accepts h opts p \<and> p \<in> set vc)
       \<or> (\<exists>vc p. st1 = st\<lparr>verifierCalls := vc, cachedNpmPath := Some p\<rparr>
              \<and> accepts h opts p \<and> p \<in> set vc)
       \<or> (\<exists>v t. st1 = st\<lparr>cachedHomePath := v, cachedTmpPath := t\<rparr>)"
proof -
  have same: "st = st\<lparr>verifierCalls := verifierCalls st\<rparr>" by simp
  consider (abs) "st1 = st"
    | (home) "getHomePath h opts st = (r, st1)"
    | (tmp) "getTmpPath h opts st = (r, st1)"
    | (git) "getGitPath h opts st = (r, st1)"
    | (node) "getNodePath h opts st = (r, st1)"
    | (npm) "getNpmPath h opts st = (r, st1)"
    | (generic) "getGenericExecPath h execName opts st = (r, st1)"
    using assms
    by (cases execName) (auto simp: getExecPath_def Let_def split: if_splits)
  then show ?thesis
  proof cases
    case abs
    then show ?thesis using same by metis
  next
    case home
    then obtain v where "st1 = st\<lparr>cachedHomePath := v\<rparr>"
      using getHomePath_state by blast
    then have "st1 = st\<lparr>cachedHomePath := v, cachedTmpPath := cachedTmpPath st\<rparr>" by simp
    then show ?thesis by blast
  next
    case tmp
    then show ?thesis using getTmpPath_state by blast
  next
    case git
    then show ?thesis using getGitPath_state [OF git] by blast
  next
    case node
    then show ?thesis using getNodePath_state [OF node] by blast
  next
    case npm
    then show ?thesis using getNpmPath_state [OF npm] by blast
  next
    case generic
    then show ?thesis using getGenericExecPath_state [OF generic] by blast
  qed
qed

lemma getHomePath_written:
  assumes "getHomePath h opts st = (r, st1)"
  shows "(cachedHomePath st1 \<noteq> cachedHomePath st \<longrightarrow>
            cachedHomePath st1 = firstTruthy [env h ''USERPROFILE'', env h ''HOME''])
         \<and> cachedTmpPath st1 = cachedTmpPath st"
  using assms
  by (auto simp: getHomePath_def homePathValue_def Let_def split: if_splits)

lemma getTmpPath_written:
  assumes "getTmpPath h opts st = (r, st1)"
  shows "(cachedHomePath st1 \<noteq> cachedHomePath st \<longrightarrow>
            cachedHomePath st1 = firstTruthy [env h ''USERPROFILE'', env h ''HOME''])
         \<and> (cachedTmpPath st1 \<noteq> cachedTmpPath st \<longrightarrow>
              (if truthy (firstTruthy [env h ''TMPDIR'', env h ''TMP'', env h ''TEMP''])
               then cachedTmpPath st1 = firstTruthy [env h ''TMPDIR'', env h ''TMP'', env h ''TEMP'']
               else (\<exists>home.
                       (if truthy (cachedHomePath st) then cachedHomePath st
                        else firstTruthy [env h ''USERPROFILE'', env h ''HOME'']) = Some home
                     \<and> cachedTmpPath st1 =
                         Some (if pathResolve2 h home (if isWindows h then ''temp'' else ''tmp'') \<noteq> []
                               then pathResolve2 h home (if isWindows h then ''temp'' else ''tmp'')
                               else if isWindows h
                               then pathResolve2 h
                                      (case firstTruthy [env h ''windir''] of
                                         None \<Rightarrow> ''C:'' @ CHR 0x5C # ''Windows'' | Some w \<Rightarrow> w)
                                      ''temp''
                               else ''/tmp''))))"
proof (cases "cacheEnabled opts")
  case False
  then have "cachedHomePath st1 = cachedHomePath st \<and> cachedTmpPath st1 = cachedTmpPath st"
    using assms
    by (auto simp: getTmpPath_def finishTmpPath_def homePathValue_def Let_def
             split: if_splits option.splits prod.splits)
  then show ?thesis by simp
next
  case True
  show ?thesis
  proof (cases "truthy (cachedTmpPath st)")
    case T2: True
    then have "st1 = st" using assms True by (simp add: getTmpPath_def)
    then show ?thesis by simp
  next
    case F2: False
    show ?thesis
    proof (cases "truthy (firstTruthy [env h ''TMPDIR'', env h ''TMP'', env h ''TEMP''])")
      case T3: True
      then have "st1 = st\<lparr>cachedTmpPath := firstTruthy [env h ''TMPDIR'', env h ''TMP'', env h ''TEMP'']\<rparr>"
        using assms True F2 by (auto simp: getTmpPath_def finishTmpPath_def Let_def)
      then show ?thesis using T3 by simp
    next
      case F3: False
      show ?thesis
      proof (cases "truthy (cachedHomePath st)")
        case T4: True
        then obtain home where home: "cachedHomePath st = Some home" "home \<noteq> []"
          by (cases "cachedHomePath st") (auto simp: truthy_def)
        have hv: "homePathValue h opts st = (Some home, st)"
          using True T4 home by (simp add: homePathValue_def)
        show ?thesis
          using assms True F2 F3 T4 home hv
          by (auto simp: getTmpPath_def finishTmpPath_def Let_def)
      next
        case F4: False
        let ?v = "firstTruthy [env h ''USERPROFILE'', env h ''HOME'']"
        have hv: "homePathValue h opts st = (?v, st\<lparr>cachedHomePath := ?v\<rparr>)"
          using True F4 by (simp add: homePathValue_def Let_def)
        show ?thesis
        proof (cases ?v)
          case None
          then have "st1 = st\<lparr>cachedHomePath := None\<rparr>"
            using assms True F2 F3 hv by (simp add: getTmpPath_def Let_def)
          then show ?thesis using None by simp
        next
          case (Some home)
          then show ?thesis
            using assms True F2 F3 F4 hv
            by (auto simp: getTmpPath_def finishTmpPath_def Let_def)
        qed
      qed
    qed
  qed
qed


lemma getExecPath_home_tmp_written:
  assumes "getExecPath h execName opts st = (r, st1)"
  shows "(cachedHomePath st1 \<noteq> cachedHomePath st \<longrightarrow>
            cachedHomePath st1 = firstTruthy [env h ''USERPROFILE'', env h ''HOME''])
         \<and> (cachedTmpPath st1 \<noteq> cachedTmpPath st \<longrightarrow>
              (if truthy (firstTruthy [env h ''TMPDIR'', env h ''TMP'', env h ''TEMP''])
               then cachedTmpPath st1 = firstTruthy [env h ''TMPDIR'', env h ''TMP'', env h ''TEMP'']
               else (\<exists>home.
                       (if truthy (cachedHomePath st) then cachedHomePath st
                        else firstTruthy [env h ''USERPROFILE'', env h ''HOME'']) = Some home
                     \<and> cachedTmpPath st1 =
                         Some (if pathResolve2 h home (if isWindows h then ''temp'' else ''tmp'') \<noteq> []
                               then pathResolve2 h home (if isWindows h then ''temp'' else ''tmp'')
                               else if isWindows h
                               then pathResolve2 h
                                      (case firstTruthy [env h ''windir''] of
                                         None \<Rightarrow> ''C:'' @ CHR 0x5C # ''Windows'' | Some w \<Rightarrow> w)
                                      ''temp''
                               else ''/tmp''))))"
proof -
  consider (abs) "st1 = st"
    | (home) "getHomePath h opts st = (r, st1)"
    | (tmp) "getTmpPath h opts st = (r, st1)"
    | (git) "getGitPath h opts st = (r, st1)"
    | (node) "getNodePath h opts st = (r, st1)"
    | (npm) "getNpmPath h opts st = (r, st1)"
    | (generic) "getGenericExecPath h execName opts st = (r, st1)"
    using assms
    by (cases execName) (auto simp: getExecPath_def Let_def split: if_splits)
  then show ?thesis
  proof cases
    case abs
    then show ?thesis by simp
  next
    case home
    show ?thesis using getHomePath_written [OF home] by simp
  next
    case tmp
    show ?thesis by (rule getTmpPath_written [OF tmp])
  next
    case git
    have "cachedHomePath st1 = cachedHomePath st \<and> cachedTmpPath st1 = cachedTmpPath st"
      using getGitPath_state [OF git] by auto
    then show ?thesis by simp
  next
    case node
    have "cachedHomePath st1 = cachedHomePath st \<and> cachedTmpPath st1 = cachedTmpPath st"
      using getNodePath_state [OF node] by auto
    then show ?thesis by simp
  next
    case npm
    have "cachedHomePath st1 = cachedHomePath st \<and> cachedTmpPath st1 = cachedTmpPath st"
      using getNpmPath_state [OF npm] by auto
    then show ?thesis by simp
  next
    case generic
    have "cachedHomePath st1 = cachedHomePath st \<and> cachedTmpPath st1 = cachedTmpPath st"
      using getGenericExecPath_state [OF generic] by auto
    then show ?thesis by simp
  qed
qed

text \<open>
  Claim C9, amended. Whatever the name, a resolution changes an entry of
  \<open>execPathCache\<close>, or the cached git, node or npm path, only to a path that the
  verifier was called on and accepted. The cached home and temp paths are written
  without the verifier: a resolution that changes one of them makes no verifier
  call. What it writes to the cached home path is \<open>USERPROFILE\<close> or, when that is
  unset or empty, \<open>HOME\<close>, or \<open>null\<close> when both are. What it writes to the cached
  temp path is the first of \<open>TMPDIR\<close>, \<open>TMP\<close> and \<open>TEMP\<close> that is set and not
  empty or, when there is none, the directory \<open>tmp\<close> (on Windows \<open>temp\<close>)
  resolved against the home path, where the home path is the cached one or else the
  one from the environment; should that resolve to the empty string, it is
  \<open>/tmp\<close>, on Windows \<open>temp\<close> resolved against \<open>windir\<close> or \<open>C:\Windows\<close>.
\<close>

theorem getExecPath_cache_writes:
  assumes "getExecPath h execName opts st = (r, st1)"
  shows "(\<forall>k. execPathCache st1 k \<noteq> execPathCache st k \<longrightarrow>
            (\<exists>p. execPathCache st1 k = Some p \<and> isExecutable h (syncEnabled opts) p
                 \<and> p \<in> set (verifierCalls st1)))
       \<and> (cachedGitPath st1 \<noteq> cachedGitPath st \<longrightarrow>
            (\<exists>p. cachedGitPath st1 = Some p \<and> isExecutable h (syncEnabled opts) p
                 \<and> p \<in> set (verifierCalls st1)))
       \<and> (cachedNodePath st1 \<noteq> cachedNodePath st \<longrightarrow>
            (\<exists>p. cachedNodePath st1 = Some p \<and> isExecutable h (syncEnabled opts) p
                 \<and> p \<in> set (verifierCalls st1)))
       \<and> (cachedNpmPath st1 \<noteq> cachedNpmPath st \<longrightarrow>
            (\<exists>p. cachedNpmPath st1 = Some p \<and> isExecutable h (syncEnabled opts) p
                 \<and> p \<in> set (verifierCalls st1)))
       \<and> (cachedHomePath st1 \<noteq> cachedHomePath st \<or> cachedTmpPath st1 \<noteq> cachedTmpPath st \<longrightarrow>
            verifierCalls st1 = verifierCalls st)
       \<and> (cachedHomePath st1 \<noteq> cachedHomePath st \<longrightarrow>
            cachedHomePath st1 = firstTruthy [env h ''USERPROFILE'', env h ''HOME''])
       \<and> (cachedTmpPath st1 \<noteq> cachedTmpPath st \<longrightarrow>
              (if truthy (firstTruthy [env h ''TMPDIR'', env h ''TMP'', env h ''TEMP''])
               then cachedTmpPath st1 = firstTruthy [env h ''TMPDIR'', env h ''TMP'', env h ''TEMP'']
               else (\<exists>home.
                       (if truthy (cachedHomePath st) then cachedHomePath st
                        else firstTruthy [env h ''USERPROFILE'', env h ''HOME'']) = Some home
                     \<and> cachedTmpPath st1 =
                         Some (if pathResolve2 h home (if isWindows h then ''temp'' else ''tmp'') \<noteq> []
                               then pathResolve2 h home (if isWindows h then ''temp'' else ''tmp'')
                               else if isWindows h
                               then pathResolve2 h
                                      (case firstTruthy [env h ''windir''] of
                                         None \<Rightarrow> ''C:'' @ CHR 0x5C # ''Windows'' | Some w \<Rightarrow> w)
                                      ''temp''
                               else ''/tmp''))))"
proof -
  have executables:
    "(\<forall>k. execPathCache st1 k \<noteq> execPathCache st k \<longrightarrow>
            (\<exists>p. execPathCache st1 k = Some p \<and> isExecutable h (syncEnabled opts) p
                 \<and> p \<in> set (verifierCalls st1)))
       \<and> (cachedGitPath st1 \<noteq> cachedGitPath st \<longrightarrow>
            (\<exists>p. cachedGitPath st1 = Some p \<and> isExecutable h (syncEnabled opts) p
                 \<and> p \<in> set (verifierCalls st1)))
       \<and> (cachedNodePath st1 \<noteq> cachedNodePath st \<longrightarrow>
            (\<exists>p. cachedNodePath st1 = Some p \<and> isExecutable h (syncEnabled opts) p
                 \<and> p \<in> set (verifierCalls st1)))
       \<and> (cachedNpmPath st1 \<noteq> cachedNpmPath st \<longrightarrow>
            (\<exists>p. cachedNpmPath st1 = Some p \<and> isExecutable h (syncEnabled opts) p
                 \<and> p \<in> set (verifierCalls st1)))
       \<and> (cachedHomePath st1 \<noteq> cachedHomePath st \<or> cachedTmpPath st1 \<noteq> cachedTmpPath st \<longrightarrow>
            verifierCalls st1 = verifierCalls st)"
    using getExecPath_state [OF assms]
    by (elim disjE exE conjE) (simp_all split: if_splits)
  show ?thesis
    using conjI [OF executables getExecPath_home_tmp_written [OF assms]]
    by (simp only: conj_assoc)
qed

text \<open>
  Claim C9, as the specification words it, fails for the home-directory cache:
  resolving \<open>home\<close> on a host where \<open>HOME\<close> is \<open>/home/u\<close> and nothing is
  executable writes \<open>/home/u\<close> to \<open>cachedHomePath\<close> without a single verifier
  call, and the verifier would reject that path.
\<close>

theorem getExecPath_home_unverified_counterexample:
  "cachedHomePath (snd (getExecPath (exampleHost ''linux'' (CHR '':'') [''HOME'' \<mapsto> ''/home/u''] [])
                          ''home'' defaultOptions initialState)) = Some ''/home/u''
   \<and> cachedHomePath initialState = None
   \<and> verifierCalls (snd (getExecPath (exampleHost ''linux'' (CHR '':'') [''HOME'' \<mapsto> ''/home/u''] [])
                          ''home'' defaultOptions initialState)) = []
   \<and> \<not> isExecutable (exampleHost ''linux'' (CHR '':'') [''HOME'' \<mapsto> ''/home/u''] []) False ''/home/u''
   \<and> \<not> isExecutable (exampleHost ''linux'' (CHR '':'') [''HOME'' \<mapsto> ''/home/u''] []) True ''/home/u''"
  by (simp add: getExecPath_def isAbsolute_def getExecMethodName_def toUpperCase_def
                getHomePath_def homePathValue_def cacheEnabled_def defaultOptions_def
                initialState_def exampleHost_def truthy_def isExecutable_def isExecutableSync_def
                Let_def)


lemma example_resolution:
  "fst (getExecPath (exampleHost ''linux'' (CHR '':'') [''PATH'' \<mapsto> ''/usr/bin:/bin''] [''/bin/ls''])
          ''ls'' defaultOptions initialState)
     = ([Success (Some ''/bin/ls'')], None)
   \<and> verifierCalls (snd (getExecPath (exampleHost ''linux'' (CHR '':'') [''PATH'' \<mapsto> ''/usr/bin:/bin''] [''/bin/ls''])
          ''ls'' defaultOptions initialState))
     = [''/work/ls'', ''/usr/bin/ls'', ''/bin/ls'']"
  by (simp add: getExecPath_def isAbsolute_def getExecMethodName_def toUpperCase_def
                getGenericExecPath_def cacheEnabled_def defaultOptions_def initialState_def
                objectPrototypeNames_def
                truthy_def getPossibleExecPaths_def getStandardExecPaths_def
                getEnvironmentPaths_def isWindows_def exampleHost_def splitString_def
                determined_def determineExecPath_def determineTask_def isExecutable_def
                isExecutableSync_def syncEnabled_def Let_def)

theorem getExecPath_cached_again_witness:
  "cacheEnabled defaultOptions
   \<and> getExecPath (exampleHost ''linux'' (CHR '':'') [''PATH'' \<mapsto> ''/usr/bin:/bin''] [''/bin/ls''])
        ''ls'' defaultOptions
        (snd (getExecPath (exampleHost ''linux'' (CHR '':'') [''PATH'' \<mapsto> ''/usr/bin:/bin''] [''/bin/ls''])
                ''ls'' defaultOptions initialState))
     = (([Success (Some ''/bin/ls'')], None),
        snd (getExecPath (exampleHost ''linux'' (CHR '':'') [''PATH'' \<mapsto> ''/usr/bin:/bin''] [''/bin/ls''])
               ''ls'' defaultOptions initialState))
   \<and> verifierCalls
        (snd (getExecPath (exampleHost ''linux'' (CHR '':'') [''PATH'' \<mapsto> ''/usr/bin:/bin''] [''/bin/ls''])
                ''ls'' defaultOptions
                (snd (getExecPath (exampleHost ''linux'' (CHR '':'') [''PATH'' \<mapsto> ''/usr/bin:/bin''] [''/bin/ls''])
                        ''ls'' defaultOptions initialState))))
     = [''/work/ls'', ''/usr/bin/ls'', ''/bin/ls'']"
proof -
  let ?h = "exampleHost ''linux'' (CHR '':'') [''PATH'' \<mapsto> ''/usr/bin:/bin''] [''/bin/ls'']"
  have c: "cacheEnabled defaultOptions"
    by (simp add: cacheEnabled_def defaultOptions_def)
  have first: "getExecPath ?h ''ls'' defaultOptions initialState
                 = (([Success (Some ''/bin/ls'')], None),
                    snd (getExecPath ?h ''ls'' defaultOptions initialState))"
    using example_resolution by (simp add: prod_eq_iff)
  show ?thesis
    using c getExecPath_cached_again [OF c first] example_resolution by simp
qed

theorem getExecPath_cache_writes_witness:
  "(\<exists>p. execPathCache
           (snd (getExecPath (exampleHost ''linux'' (CHR '':'') [''PATH'' \<mapsto> ''/usr/bin:/bin''] [''/bin/ls''])
                   ''ls'' defaultOptions initialState)) ''ls'' = Some p
        \<and> isExecutable (exampleHost ''linux'' (CHR '':'') [''PATH'' \<mapsto> ''/usr/bin:/bin''] [''/bin/ls''])
             (syncEnabled defaultOptions) p)
   \<and> cachedHomePath
       (snd (getExecPath (exampleHost ''win32'' (CHR '';'')
                            [''USERPROFILE'' \<mapsto> ''C:/Users/u'', ''HOME'' \<mapsto> ''/home/u''] [])
               ''home'' defaultOptions initialState)) = Some ''C:/Users/u''
   \<and> cachedTmpPath
       (snd (getExecPath (exampleHost ''linux'' (CHR '':'') [''HOME'' \<mapsto> ''/home/u''] [])
               ''tmp'' defaultOptions initialState)) = Some ''/home/u/tmp''
   \<and> verifierCalls
       (snd (getExecPath (exampleHost ''linux'' (CHR '':'') [''HOME'' \<mapsto> ''/home/u''] [])
               ''tmp'' defaultOptions initialState)) = []"
proof -
  let ?h = "exampleHost ''linux'' (CHR '':'') [''PATH'' \<mapsto> ''/usr/bin:/bin''] [''/bin/ls'']"
  let ?w = "exampleHost ''win32'' (CHR '';'')
              [''USERPROFILE'' \<mapsto> ''C:/Users/u'', ''HOME'' \<mapsto> ''/home/u''] []"
  let ?l = "exampleHost ''linux'' (CHR '':'') [''HOME'' \<mapsto> ''/home/u''] []"
  have w: "execPathCache (snd (getExecPath ?h ''ls'' defaultOptions initialState)) ''ls''
             \<noteq> execPathCache initialState ''ls''"
    by (simp add: getExecPath_def isAbsolute_def getExecMethodName_def toUpperCase_def
                getGenericExecPath_def cacheEnabled_def defaultOptions_def initialState_def
                objectPrototypeNames_def
                truthy_def getPossibleExecPaths_def getStandardExecPaths_def
                getEnvironmentPaths_def isWindows_def exampleHost_def splitString_def
                determined_def determineExecPath_def determineTask_def isExecutable_def
                isExecutableSync_def syncEnabled_def Let_def)
  have wh: "cachedHomePath (snd (getExecPath ?w ''home'' defaultOptions initialState))
              \<noteq> cachedHomePath initialState"
    by (simp add: getExecPath_def isAbsolute_def getExecMethodName_def toUpperCase_def
                getHomePath_def homePathValue_def cacheEnabled_def defaultOptions_def
                initialState_def exampleHost_def truthy_def Let_def)
  have wt: "cachedTmpPath (snd (getExecPath ?l ''tmp'' defaultOptions initialState))
              \<noteq> cachedTmpPath initialState"
    by (simp add: getExecPath_def isAbsolute_def getExecMethodName_def toUpperCase_def
                getTmpPath_def finishTmpPath_def homePathValue_def cacheEnabled_def
                defaultOptions_def initialState_def exampleHost_def truthy_def isWindows_def
                Let_def)
  have e: "\<And>hh n. getExecPath hh n defaultOptions initialState
             = (fst (getExecPath hh n defaultOptions initialState),
                snd (getExecPath hh n defaultOptions initialState))"
    by simp
  note t1 = getExecPath_cache_writes [OF e [of ?h "''ls''"]]
  note t2 = getExecPath_cache_writes [OF e [of ?w "''home''"]]
  note t3 = getExecPath_cache_writes [OF e [of ?l "''tmp''"]]
  note rest = conjunct2 [THEN conjunct2, THEN conjunct2, THEN conjunct2]
  have 1: "\<exists>p. execPathCache (snd (getExecPath ?h ''ls'' defaultOptions initialState)) ''ls'' = Some p
        \<and> isExecutable ?h (syncEnabled defaultOptions) p"
    using t1 [THEN conjunct1, rule_format, OF w] by blast
  have 2: "cachedHomePath (snd (getExecPath ?w ''home'' defaultOptions initialState))
             = Some ''C:/Users/u''"
    using t2 [THEN rest, THEN conjunct2, THEN conjunct1] wh
    by (simp add: exampleHost_def truthy_def)
  have 3: "cachedTmpPath (snd (getExecPath ?l ''tmp'' defaultOptions initialState))
             = Some ''/home/u/tmp''"
    using t3 [THEN rest, THEN conjunct2, THEN conjunct2] wt
    by (simp add: exampleHost_def truthy_def initialState_def isWindows_def)
  have 4: "verifierCalls (snd (getExecPath ?l ''tmp'' defaultOptions initialState)) = []"
    using t3 [THEN rest, THEN conjunct1] wt
    by (simp add: initialState_def)
  from 1 2 3 4 show ?thesis by blast
qed

subsection \<open>Output mirroring of the asynchronous spawn\<close>

lemma updateExecutableResult_silent:
  "\<not> optOutput opts \<Longrightarrow> updateExecutableResult r opts = ([], Inr (classifyResult r))"
  by (simp add: updateExecutableResult_def)

lemma mirrorChunk_at_most_one:
  "length (mirrorChunk opts ch d) \<le> 1"
  by (simp add: mirrorChunk_def outputData_def)

lemma mirrorChunk_off:
  "\<not> optOutput opts \<Longrightarrow> mirrorChunk opts ch d = []"
  by (simp add: mirrorChunk_def)

lemma close_writes_nothing:
  "spWritten (childEvent s (Close st sg)) = spWritten s"
  by (simp add: Let_def updateExecutableResult_silent)

lemma close_exited_or_off:
  "spExited s \<longrightarrow> \<not> optOutput (spOpts s) \<Longrightarrow>
   \<not> optOutput (spOpts (childEvent s (Close st sg)))"
  by (simp add: Let_def updateExecutableResult_silent)

lemma output_stays_off:
  "\<not> optOutput (spOpts s) \<Longrightarrow>
   spWritten (foldl childEvent s evs) = spWritten s"
proof (induction evs arbitrary: s)
  case Nil
  show ?case by simp
next
  case (Cons e evs)
  have off: "\<not> optOutput (spOpts (childEvent s e))"
    using Cons.prems by (cases e) (simp_all add: Let_def updateExecutableResult_silent)
  have same: "spWritten (childEvent s e) = spWritten s"
  proof (cases e)
    case (Close st sg)
    then show ?thesis by (simp only: close_writes_nothing)
  qed (simp_all add: mirrorChunk_off Cons.prems)
  show ?case
    using Cons.IH [OF off] same by simp
qed

lemma exited_implies_off_step:
  "spExited s \<longrightarrow> \<not> optOutput (spOpts s) \<Longrightarrow>
   spExited (childEvent s e) \<longrightarrow> \<not> optOutput (spOpts (childEvent s e))"
  by (cases e) (simp_all add: Let_def updateExecutableResult_silent)

lemma exited_implies_off:
  "spExited s \<longrightarrow> \<not> optOutput (spOpts s) \<Longrightarrow>
   spExited (foldl childEvent s evs) \<longrightarrow> \<not> optOutput (spOpts (foldl childEvent s evs))"
proof (induction evs arbitrary: s)
  case Nil
  then show ?case by simp
next
  case (Cons e evs)
  show ?case
    using Cons.IH [OF exited_implies_off_step [OF Cons.prems, of e]] by simp
qed

lemma not_exited_before_close:
  "\<forall>e \<in> set evs. \<forall>st sg. e \<noteq> Close st sg \<Longrightarrow>
   spExited (foldl childEvent s evs) = spExited s
   \<and> spOpts (foldl childEvent s evs) = spOpts s
   \<and> spWritten (foldl childEvent s evs)
       = spWritten s @
         (if optRead (spOpts s)
          then concat (map (\<lambda>e. case e of
                                   StdoutData d \<Rightarrow> mirrorChunk (spOpts s) Stdout d
                                 | StderrData d \<Rightarrow> mirrorChunk (spOpts s) Stderr d
                                 | Close st sg \<Rightarrow> []) evs)
          else [])"
proof (induction evs arbitrary: s)
  case Nil
  show ?case by simp
next
  case (Cons e evs)
  have rest: "\<forall>e \<in> set evs. \<forall>st sg. e \<noteq> Close st sg" using Cons.prems by simp
  show ?case
  proof (cases e)
    case (StdoutData d)
    then show ?thesis using Cons.IH [OF rest, of "childEvent s e"] by simp
  next
    case (StderrData d)
    then show ?thesis using Cons.IH [OF rest, of "childEvent s e"] by simp
  next
    case (Close st sg)
    then show ?thesis using Cons.prems by simp
  qed
qed

text \<open>
  Claim C10. The close handler of the asynchronous \<open>spawn\<close> writes nothing to the
  parent's streams, in any state: it sets \<open>opts.output\<close> to false before it
  finalizes the result, so finalization does not emit the accumulated buffers. Of
  a whole run, what has been written once the child has closed is what had been
  written before the close event, and nothing is written after it; up to the close
  event, what has been written is the mirroring of each chunk by its \<open>data\<close>
  handler, in the order of arrival, and mirroring one chunk is at most one write.
\<close>

theorem spawn_mirrors_on_arrival_only:
  "spWritten (childEvent s (Close st sg)) = spWritten s
   \<and> spWritten (spawnChild opts child (evs @ Close st sg # evs'))
       = spWritten (spawnChild opts child evs)
   \<and> ((\<forall>e \<in> set evs. \<forall>st sg. e \<noteq> Close st sg) \<longrightarrow>
        spWritten (spawnChild opts child evs)
          = (if optRead opts
             then concat (map (\<lambda>e. case e of
                                      StdoutData d \<Rightarrow> mirrorChunk opts Stdout d
                                    | StderrData d \<Rightarrow> mirrorChunk opts Stderr d
                                    | Close st sg \<Rightarrow> []) evs)
             else []))
   \<and> length (mirrorChunk opts ch d) \<le> 1"
proof (intro conjI impI)
  show "spWritten (childEvent s (Close st sg)) = spWritten s"
    by (rule close_writes_nothing)
next
  show "length (mirrorChunk opts ch d) \<le> 1"
    by (rule mirrorChunk_at_most_one)
next
  assume "\<forall>e \<in> set evs. \<forall>st sg. e \<noteq> Close st sg"
  from not_exited_before_close [OF this, of "spawnStart opts child"]
  show "spWritten (spawnChild opts child evs)
          = (if optRead opts
             then concat (map (\<lambda>e. case e of
                                      StdoutData d \<Rightarrow> mirrorChunk opts Stdout d
                                    | StderrData d \<Rightarrow> mirrorChunk opts Stderr d
                                    | Close st sg \<Rightarrow> []) evs)
             else [])"
    by (simp add: spawnChild_def spawnStart_def)
next
  have inv: "spExited (foldl childEvent (spawnStart opts child) evs)
               \<longrightarrow> \<not> optOutput (spOpts (foldl childEvent (spawnStart opts child) evs))"
    by (rule exited_implies_off) (simp add: spawnStart_def)
  show "spWritten (spawnChild opts child (evs @ Close st sg # evs'))
       = spWritten (spawnChild opts child evs)"
    using output_stays_off [OF close_exited_or_off [OF inv, of st sg], of evs']
          close_writes_nothing [of "foldl childEvent (spawnStart opts child) evs" st sg]
    by (simp add: spawnChild_def)
qed


theorem spawn_mirrors_on_arrival_only_witness:
  "spWritten (spawnChild (defaultOptions\<lparr>optOutput := True\<rparr>) 7
                [StdoutData ''ok'', StderrData '' '', Close (Some 0) None])
     = [(Stdout, ''ok'')]"
proof -
  have nc: "\<forall>e \<in> set [StdoutData ''ok'', StderrData '' '']. \<forall>st sg. e \<noteq> Close st sg"
    by simp
  have "spWritten (spawnChild (defaultOptions\<lparr>optOutput := True\<rparr>) 7
                     ([StdoutData ''ok'', StderrData '' ''] @ Close (Some 0) None # []))
          = concat (map (\<lambda>e. case e of
                                StdoutData d \<Rightarrow> mirrorChunk (defaultOptions\<lparr>optOutput := True\<rparr>) Stdout d
                              | StderrData d \<Rightarrow> mirrorChunk (defaultOptions\<lparr>optOutput := True\<rparr>) Stderr d
                              | Close st sg \<Rightarrow> [])
                        [StdoutData ''ok'', StderrData '' ''])"
    using spawn_mirrors_on_arrival_only
            [where opts = "defaultOptions\<lparr>optOutput := True\<rparr>" and child = 7
               and evs = "[StdoutData ''ok'', StderrData '' '']" and st = "Some 0"
               and sg = None and evs' = "[]"] nc
    by (simp add: defaultOptions_def)
  then show ?thesis
    by (simp add: mirrorChunk_def outputData_def defaultOptions_def trim_def isWhitespace_def
                  truthy_def)
qed

subsection \<open>The batch runners\<close>































end
